theory Spec2Isabelle
  imports Complex_Main "HOL-Library.Sublist" "HOL-Library.AList"
begin

section \<open>Twitter-SEO agent: scoring, selection, scheduling and publishing\<close>

text \<open>
  A shallow embedding of the scheduling and ranking core of the repository:
  \<^verbatim>\<open>src/utils/date-utils.js\<close>, \<open>src/utils/text-utils.js\<close>, \<open>src/utils/validator.js\<close>,
  \<open>src/constants/posting-schedule.js\<close>, \<open>src/agents/filter.js\<close>, \<open>src/agents/scraper.js\<close>,
  \<open>src/agents/poster.js\<close> and \<open>src/services/scheduler.js\<close>.

  Conventions. A JavaScript \<open>Date\<close> is its time value, an \<open>int\<close> of milliseconds since
  the epoch; an invalid date is \<open>None\<close>. Strings are lists of code units. A thrown
  exception is the left injection of a sum. Calls to external collaborators (HTTP
  services, the clock) are parameters carrying the outcome of the call.
\<close>

subsection \<open>Recency score (\<open>date-utils.js\<close>)\<close>

text \<open>\<open>hoursBetween(date1, date2) = (date2 - date1) / (1000 * 60 * 60)\<close>.\<close>

definition hoursBetween :: "int \<Rightarrow> int \<Rightarrow> real" where
  "hoursBetween date1 date2 = real_of_int (date2 - date1) / (1000 * 60 * 60)"

text \<open>
  \<open>calculateRecencyScore(publishDate)\<close>, with the evaluation time \<open>new Date()\<close> as the
  second argument. An unparsable publish date has the time value NaN: every comparison
  of the chain is then false and the final \<open>return 0\<close> is reached.
\<close>

fun calculateRecencyScore :: "int option \<Rightarrow> int \<Rightarrow> int" where
  "calculateRecencyScore None now = 0"
| "calculateRecencyScore (Some date) now =
     (let hoursAgo = hoursBetween date now in
      if hoursAgo < 0 then 0
      else if hoursAgo \<le> 6 then 20
      else if hoursAgo \<le> 12 then 15
      else if hoursAgo \<le> 18 then 10
      else if hoursAgo \<le> 24 then 5
      else 0)"

subsection \<open>The \<open>Date\<close> built-ins used by the source\<close>

text \<open>
  Days since the epoch of the first instant of a civil day (proleptic Gregorian
  calendar, month \<open>1..12\<close>), and the inverse. These implement the abstract operations
  \<open>MakeDay\<close>, \<open>YearFromTime\<close>, \<open>MonthFromTime\<close> and \<open>DateFromTime\<close> of the language
  definition.
\<close>

definition daysFromCivil :: "int \<Rightarrow> int \<Rightarrow> int \<Rightarrow> int" where
  "daysFromCivil y m d =
     (let y' = (if m \<le> 2 then y - 1 else y);
          era = y' div 400;
          yoe = y' - era * 400;
          mp = (if m > 2 then m - 3 else m + 9);
          doy = (153 * mp + 2) div 5 + d - 1;
          doe = yoe * 365 + yoe div 4 - yoe div 100 + doy
      in era * 146097 + doe - 719468)"

definition civilFromDays :: "int \<Rightarrow> int \<times> int \<times> int" where
  "civilFromDays z =
     (let z' = z + 719468;
          era = z' div 146097;
          doe = z' - era * 146097;
          yoe = (doe - doe div 1460 + doe div 36524 - doe div 146096) div 365;
          doy = doe - (365 * yoe + yoe div 4 - yoe div 100);
          mp = (5 * doy + 2) div 153;
          d = doy - (153 * mp + 2) div 5 + 1;
          m = (if mp < 10 then mp + 3 else mp - 9);
          y = yoe + era * 400
      in (if m \<le> 2 then y + 1 else y, m, d))"

definition msPerDay :: int where
  "msPerDay = 86400000"

definition msPerHour :: int where
  "msPerHour = 3600000"

text \<open>
  \<open>Date.UTC(year, month, date, hours)\<close> with a zero-based month: a year in \<open>0..99\<close>
  stands for \<open>1900 + year\<close>, and a day of the month past the month's end runs into the
  following month. Time values stay within the range of \<open>Date\<close>.
\<close>

definition MakeDay :: "int \<Rightarrow> int \<Rightarrow> int \<Rightarrow> int" where
  "MakeDay year month date = daysFromCivil (year + month div 12) (month mod 12 + 1) 1 + date - 1"

definition Date_UTC :: "int \<Rightarrow> int \<Rightarrow> int \<Rightarrow> int \<Rightarrow> int" where
  "Date_UTC year month date hours =
     (let yr = (if 0 \<le> year \<and> year \<le> 99 then 1900 + year else year)
      in MakeDay yr month date * msPerDay + hours * msPerHour)"

definition getUTCFullYear :: "int \<Rightarrow> int" where
  "getUTCFullYear t = fst (civilFromDays (t div msPerDay))"

definition getUTCDay :: "int \<Rightarrow> int" where
  "getUTCDay t = (t div msPerDay + 4) mod 7"

definition getUTCHours :: "int \<Rightarrow> int" where
  "getUTCHours t = (t div msPerHour) mod 24"

subsection \<open>Daylight-saving time (\<open>date-utils.js\<close>)\<close>

text \<open>\<open>isEasternDST(date)\<close> of \<open>date-utils.js\<close>; the comparison is between time values.\<close>

definition isEasternDST :: "int \<Rightarrow> bool" where
  "isEasternDST date =
     (let year = getUTCFullYear date;
          marchFirst = Date_UTC year 2 1 0;
          daysToSecondSunday = (7 - getUTCDay marchFirst) mod 7 + 7;
          dstStart = Date_UTC year 2 (1 + daysToSecondSunday) 7;
          novFirst = Date_UTC year 10 1 0;
          daysToFirstSunday = (7 - getUTCDay novFirst) mod 7;
          dstEnd = Date_UTC year 10 (1 + daysToFirstSunday) 6
      in date \<ge> dstStart \<and> date < dstEnd)"

subsection \<open>Posting schedule (\<open>constants/posting-schedule.js\<close>)\<close>

text \<open>
  \<open>isEasternDST(date)\<close> of the posting-schedule module. It reads the date in the host's
  local zone (\<open>getFullYear\<close>, \<open>new Date(year, month, day)\<close>, \<open>getDay\<close>); the host is a
  Cloudflare Worker, whose local zone is UTC.
\<close>

definition isEasternDST_schedule :: "int \<Rightarrow> bool" where
  "isEasternDST_schedule date =
     (let year = getUTCFullYear date;
          marchFirst = Date_UTC year 2 1 0;
          marchFirstDay = getUTCDay marchFirst;
          dstStart = Date_UTC year 2 (8 + (7 - marchFirstDay) mod 7 + 7) 0;
          novFirst = Date_UTC year 10 1 0;
          novFirstDay = getUTCDay novFirst;
          dstEnd = Date_UTC year 10 (1 + (7 - novFirstDay) mod 7) 0
      in date \<ge> dstStart \<and> date < dstEnd)"

text \<open>
  The day of March on which each implementation starts daylight-saving time, as a
  function of the weekday of March 1 (0 is Sunday), and the day of March that is the
  second Sunday.
\<close>

definition dstStartDay :: "int \<Rightarrow> int" where
  "dstStartDay marchFirstDay = 1 + ((7 - marchFirstDay) mod 7 + 7)"

definition dstStartDay_schedule :: "int \<Rightarrow> int" where
  "dstStartDay_schedule marchFirstDay = 8 + (7 - marchFirstDay) mod 7 + 7"

text \<open>A time slot of the daily schedule and the table \<open>POSTING_SCHEDULE\<close>.\<close>

record timeSlot =
  hour :: int
  utcHour :: int
  utcHourDST :: int
  postNumber :: nat
  categoryId :: string
  categoryRank :: nat
  includeQuote :: bool

definition POSTING_SCHEDULE :: "timeSlot list" where
  "POSTING_SCHEDULE =
     [\<lparr>hour = 9, utcHour = 14, utcHourDST = 13, postNumber = 1,
       categoryId = ''ai-providers'', categoryRank = 1, includeQuote = False\<rparr>,
      \<lparr>hour = 10, utcHour = 15, utcHourDST = 14, postNumber = 2,
       categoryId = ''business-ai'', categoryRank = 1, includeQuote = False\<rparr>,
      \<lparr>hour = 11, utcHour = 16, utcHourDST = 15, postNumber = 3,
       categoryId = ''ai-safety'', categoryRank = 1, includeQuote = True\<rparr>,
      \<lparr>hour = 12, utcHour = 17, utcHourDST = 16, postNumber = 4,
       categoryId = ''ai-providers'', categoryRank = 2, includeQuote = False\<rparr>,
      \<lparr>hour = 13, utcHour = 18, utcHourDST = 17, postNumber = 5,
       categoryId = ''business-ai'', categoryRank = 2, includeQuote = False\<rparr>,
      \<lparr>hour = 14, utcHour = 19, utcHourDST = 18, postNumber = 6,
       categoryId = ''ai-safety'', categoryRank = 2, includeQuote = True\<rparr>,
      \<lparr>hour = 15, utcHour = 20, utcHourDST = 19, postNumber = 7,
       categoryId = ''ai-providers'', categoryRank = 3, includeQuote = False\<rparr>,
      \<lparr>hour = 16, utcHour = 21, utcHourDST = 20, postNumber = 8,
       categoryId = ''business-ai'', categoryRank = 3, includeQuote = False\<rparr>,
      \<lparr>hour = 17, utcHour = 22, utcHourDST = 21, postNumber = 9,
       categoryId = ''ai-safety'', categoryRank = 3, includeQuote = True\<rparr>]"

text \<open>\<open>getTimeSlotForUTCHour(utcHour, isDST)\<close>: \<open>find\<close>, or \<open>null\<close>.\<close>

definition getTimeSlotForUTCHour :: "int \<Rightarrow> bool \<Rightarrow> timeSlot option" where
  "getTimeSlotForUTCHour h isDST =
     find (\<lambda>slot. if isDST then utcHourDST slot = h else utcHour slot = h) POSTING_SCHEDULE"

subsection \<open>Civic date strings (\<open>date-utils.js\<close>)\<close>

text \<open>Decimal numerals: \<open>pad k n\<close> is the last \<open>k\<close> digits of \<open>n\<close>, \<open>showNat n\<close> all of them.\<close>

fun pad :: "nat \<Rightarrow> nat \<Rightarrow> string" where
  "pad 0 n = []"
| "pad (Suc k) n = pad k (n div 10) @ [''0123456789'' ! (n mod 10)]"

function showNat :: "nat \<Rightarrow> string" where
  "showNat n = (if n < 10 then [''0123456789'' ! n] else showNat (n div 10) @ [''0123456789'' ! (n mod 10)])"
  by pat_completeness auto
termination
  by (relation "measure id") auto

declare showNat.simps [simp del]

text \<open>The date part of \<open>toISOString()\<close>: years outside \<open>0..9999\<close> are signed and six digits long.\<close>

definition isoDate :: "int \<Rightarrow> string" where
  "isoDate t =
     (case civilFromDays (t div msPerDay) of
        (y, m, d) \<Rightarrow>
          (if 0 \<le> y \<and> y \<le> 9999 then pad 4 (nat y)
           else (if y < 0 then ''-'' else ''+'') @ pad 6 (nat \<bar>y\<bar>))
          @ ''-'' @ pad 2 (nat m) @ ''-'' @ pad 2 (nat d))"

definition getEasternOffset :: "int \<Rightarrow> int" where
  "getEasternOffset date = (if isEasternDST date then - 4 else - 5)"

definition utcToEastern :: "int \<Rightarrow> int" where
  "utcToEastern utcDate = utcDate + getEasternOffset utcDate * 60 * 60 * 1000"

definition getTodayString :: "int \<Rightarrow> string" where
  "getTodayString date = isoDate (utcToEastern date)"

subsection \<open>Characters and strings (\<open>text-utils.js\<close> and the string built-ins it uses)\<close>

text \<open>
  Character classes of the regular expressions: \<open>\d\<close>, \<open>\w\<close>, \<open>\s\<close>, and the line
  terminators that \<open>.\<close> does not match. Code units are 8-bit here; the tables below are
  the classes restricted to that range.
\<close>

definition isDigit :: "char \<Rightarrow> bool" where
  "isDigit c = (c \<in> set ''0123456789'')"

definition isWordChar :: "char \<Rightarrow> bool" where
  "isWordChar c =
     (c \<in> set ''abcdefghijklmnopqrstuvwxyzABCDEFGHIJKLMNOPQRSTUVWXYZ0123456789_'')"

definition isSpace :: "char \<Rightarrow> bool" where
  "isSpace c = (c \<in> set [CHR 0x09, CHR 0x0A, CHR 0x0B, CHR 0x0C, CHR 0x0D, CHR '' '', CHR 0xA0])"

definition isLineTerminator :: "char \<Rightarrow> bool" where
  "isLineTerminator c = (c = CHR 0x0A \<or> c = CHR 0x0D)"

text \<open>
  \<open>toLowerCase\<close> on code units below 256: the ASCII capitals and the Latin-1 capitals
  \<open>0xC0..0xDE\<close> (without the multiplication sign \<open>0xD7\<close>) move up by \<open>0x20\<close>; every
  other code unit stays as it is.
\<close>

definition capitals :: string where
  "capitals =
     ''ABCDEFGHIJKLMNOPQRSTUVWXYZ''
     @ [CHR 0xC0, CHR 0xC1, CHR 0xC2, CHR 0xC3, CHR 0xC4, CHR 0xC5, CHR 0xC6, CHR 0xC7,
        CHR 0xC8, CHR 0xC9, CHR 0xCA, CHR 0xCB, CHR 0xCC, CHR 0xCD, CHR 0xCE, CHR 0xCF,
        CHR 0xD0, CHR 0xD1, CHR 0xD2, CHR 0xD3, CHR 0xD4, CHR 0xD5, CHR 0xD6, CHR 0xD8,
        CHR 0xD9, CHR 0xDA, CHR 0xDB, CHR 0xDC, CHR 0xDD, CHR 0xDE]"

definition smalls :: string where
  "smalls =
     ''abcdefghijklmnopqrstuvwxyz''
     @ [CHR 0xE0, CHR 0xE1, CHR 0xE2, CHR 0xE3, CHR 0xE4, CHR 0xE5, CHR 0xE6, CHR 0xE7,
        CHR 0xE8, CHR 0xE9, CHR 0xEA, CHR 0xEB, CHR 0xEC, CHR 0xED, CHR 0xEE, CHR 0xEF,
        CHR 0xF0, CHR 0xF1, CHR 0xF2, CHR 0xF3, CHR 0xF4, CHR 0xF5, CHR 0xF6, CHR 0xF8,
        CHR 0xF9, CHR 0xFA, CHR 0xFB, CHR 0xFC, CHR 0xFD, CHR 0xFE]"

definition toLowerChar :: "char \<Rightarrow> char" where
  "toLowerChar c = (case map_of (zip capitals smalls) c of Some l \<Rightarrow> l | None \<Rightarrow> c)"

definition toLowerCase :: "string \<Rightarrow> string" where
  "toLowerCase s = map toLowerChar s"

text \<open>\<open>String.prototype.trim\<close>.\<close>

definition trim :: "string \<Rightarrow> string" where
  "trim s = rev (dropWhile isSpace (rev (dropWhile isSpace s)))"

text \<open>\<open>text.includes(k)\<close>: \<open>k\<close> occurs in \<open>text\<close> as a contiguous substring.\<close>

fun includesStr :: "string \<Rightarrow> string \<Rightarrow> bool" where
  "includesStr [] k = (k = [])"
| "includesStr (c # cs) k = (prefix k (c # cs) \<or> includesStr cs k)"

text \<open>\<open>containsKeywords(text, keywords)\<close>.\<close>

definition containsKeywords :: "string \<Rightarrow> string list \<Rightarrow> bool" where
  "containsKeywords text keywords =
     (let lowerText = toLowerCase text in
      list_ex (\<lambda>keyword. includesStr lowerText (toLowerCase keyword)) keywords)"

text \<open>
  The regular expressions of the source have the shape \<open>/\b(w1|w2|...)\b/i\<close>, where each
  alternative is a sequence of literal characters and, in one place, the wildcard
  \<open>.\<close>. An alternative is a list of \<open>pat\<close>; \<open>x?\<close> is written out as two alternatives.
\<close>

datatype pat = Lit char | AnyChar

fun patOk :: "pat \<Rightarrow> char \<Rightarrow> bool" where
  "patOk (Lit k) c = (toLowerChar c = toLowerChar k)"
| "patOk AnyChar c = (\<not> isLineTerminator c)"

definition lits :: "string \<Rightarrow> pat list" where
  "lits w = map Lit w"

text \<open>
  \<open>matchPat ps prev s\<close> matches the alternative \<open>ps\<close> at the start of \<open>s\<close>; \<open>prev\<close> is
  the character before the current position. The result is the last character
  consumed and the rest of the input.
\<close>

fun matchPat :: "pat list \<Rightarrow> char option \<Rightarrow> string \<Rightarrow> (char option \<times> string) option" where
  "matchPat [] prev s = Some (prev, s)"
| "matchPat (p # ps) prev [] = None"
| "matchPat (p # ps) prev (c # cs) = (if patOk p c then matchPat ps (Some c) cs else None)"

text \<open>\<open>\b\<close>: exactly one of the two neighbouring positions holds a word character.\<close>

definition isWordAt :: "char option \<Rightarrow> bool" where
  "isWordAt x = (case x of None \<Rightarrow> False | Some c \<Rightarrow> isWordChar c)"

definition boundary :: "char option \<Rightarrow> string \<Rightarrow> bool" where
  "boundary prev s = (isWordAt prev \<noteq> isWordAt (case s of [] \<Rightarrow> None | c # _ \<Rightarrow> Some c))"

definition wordAt :: "pat list list \<Rightarrow> char option \<Rightarrow> string \<Rightarrow> bool" where
  "wordAt alts prev s =
     (boundary prev s \<and>
      list_ex (\<lambda>alt. case matchPat alt prev s of
                        None \<Rightarrow> False
                      | Some (prev', rest) \<Rightarrow> boundary prev' rest) alts)"

text \<open>\<open>/\b(alts)\b/i.test(text)\<close>: a match at some position of the text.\<close>

fun searchWord :: "pat list list \<Rightarrow> char option \<Rightarrow> string \<Rightarrow> bool" where
  "searchWord alts prev [] = wordAt alts prev []"
| "searchWord alts prev (c # cs) = (wordAt alts prev (c # cs) \<or> searchWord alts (Some c) cs)"

definition testWords :: "string list \<Rightarrow> string \<Rightarrow> bool" where
  "testWords ws text = searchWord (map lits ws) None text"

text \<open>\<open>existsSuffix P s\<close>: \<open>P\<close> holds of the input from some position on.\<close>

fun existsSuffix :: "(string \<Rightarrow> bool) \<Rightarrow> string \<Rightarrow> bool" where
  "existsSuffix P [] = P []"
| "existsSuffix P (c # cs) = (P (c # cs) \<or> existsSuffix P cs)"

text \<open>A digit, the end of a run \<open>\d+\<close>, followed by input satisfying \<open>P\<close>.\<close>

definition digitThen :: "(string \<Rightarrow> bool) \<Rightarrow> string \<Rightarrow> bool" where
  "digitThen P s = existsSuffix (\<lambda>t. case t of [] \<Rightarrow> False | c # cs \<Rightarrow> isDigit c \<and> P cs) s"

definition startsWithCI :: "string \<Rightarrow> string \<Rightarrow> bool" where
  "startsWithCI w s = prefix (toLowerCase w) (toLowerCase s)"

definition startsWithChar :: "(char \<Rightarrow> bool) \<Rightarrow> string \<Rightarrow> bool" where
  "startsWithChar P s = (case s of [] \<Rightarrow> False | c # _ \<Rightarrow> P c)"

text \<open>
  \<open>containsStatistics(text)\<close>. The six patterns, in the source's order:
  \<open>/\d+%/\<close>, \<open>/\$[\d,.]+[BMKk]?/\<close>, \<open>/\d+\s*(million|billion|trillion|thousand)/i\<close>,
  \<open>/\d+[xX]/\<close>, \<open>/\d+\s*times/i\<close>, \<open>/\d+\.\d+/\<close>. Each magnitude word starts with a
  letter, so \<open>\s*\<close> before it consumes the whole run of white space.
\<close>

definition containsStatistics :: "string \<Rightarrow> bool" where
  "containsStatistics text =
     (digitThen (startsWithChar (\<lambda>c. c = CHR ''%'')) text
      \<or> existsSuffix (\<lambda>t. case t of [] \<Rightarrow> False
            | c # cs \<Rightarrow> c = CHR ''$'' \<and>
                startsWithChar (\<lambda>d. isDigit d \<or> d = CHR '','' \<or> d = CHR ''.'') cs) text
      \<or> digitThen (\<lambda>t. list_ex (\<lambda>w. startsWithCI w (dropWhile isSpace t))
            [''million'', ''billion'', ''trillion'', ''thousand'']) text
      \<or> digitThen (startsWithChar (\<lambda>c. c = CHR ''x'' \<or> c = CHR ''X'')) text
      \<or> digitThen (\<lambda>t. startsWithCI ''times'' (dropWhile isSpace t)) text
      \<or> digitThen (\<lambda>t. case t of [] \<Rightarrow> False
            | c # cs \<Rightarrow> c = CHR ''.'' \<and> startsWithChar isDigit cs) text)"

text \<open>\<open>containsQuestion(text)\<close>.\<close>

definition containsQuestion :: "string \<Rightarrow> bool" where
  "containsQuestion text =
     (includesStr text ''?'' \<or>
      list_ex (\<lambda>w. startsWithCI w (trim text))
        [''who'', ''what'', ''when'', ''where'', ''why'', ''how'', ''is'', ''are'', ''can'',
         ''will'', ''should'', ''could'', ''would''])"

text \<open>
  \<open>isProvocative(text)\<close>. \<open>game.?changer\<close> is the alternative without the optional
  character and the one with any single character in its place.
\<close>

definition isProvocative :: "string \<Rightarrow> bool" where
  "isProvocative text =
     (testWords [''never'', ''always'', ''every'', ''no one'', ''everyone''] text
      \<or> testWords [''wrong'', ''right'', ''must'', ''need to''] text
      \<or> testWords [''actually'', ''really'', ''truth'', ''fact''] text
      \<or> testWords [''hot take'', ''controversial'', ''unpopular opinion''] text
      \<or> searchWord [lits ''gamechanger'', lits ''game'' @ [AnyChar] @ lits ''changer'',
                     lits ''revolutionary'', lits ''breakthrough''] None text
      \<or> includesStr text ''!!'')"

subsection \<open>Effective tweet length (\<open>text-utils.js\<close>)\<close>

definition TWITTER_URL_LENGTH :: int where
  "TWITTER_URL_LENGTH = 23"

definition MAX_TWEET_LENGTH :: int where
  "MAX_TWEET_LENGTH = 280"

text \<open>
  A match of \<open>/https?:\/\/[^\s]+/\<close> at the start of the input: the scheme, then the
  longest run of characters that are not white space, which must not be empty.
\<close>

definition urlAt :: "string \<Rightarrow> string option" where
  "urlAt s =
     (let scheme = (if prefix ''https://'' s then Some ''https://''
                    else if prefix ''http://'' s then Some ''http://''
                    else None)
      in case scheme of
           None \<Rightarrow> None
         | Some sch \<Rightarrow>
             (let body = takeWhile (\<lambda>c. \<not> isSpace c) (drop (length sch) s)
              in if body = [] then None else Some (sch @ body)))"

text \<open>
  \<open>text.match(urlPattern) || []\<close> with the \<open>g\<close> flag: all matches from left to right,
  the search resuming after the end of each match.
\<close>

function extractUrls :: "string \<Rightarrow> string list" where
  "extractUrls [] = []"
| "extractUrls (c # cs) =
     (case urlAt (c # cs) of
        Some u \<Rightarrow> u # extractUrls (drop (length u) (c # cs))
      | None \<Rightarrow> extractUrls cs)"
  by pat_completeness auto
termination
  by (relation "measure length")
     (auto simp: urlAt_def Let_def split: if_splits option.splits)

text \<open>\<open>calculateTweetLength(text)\<close>: the loop over the matches is a left fold.\<close>

definition calculateTweetLength :: "string \<Rightarrow> int" where
  "calculateTweetLength text =
     foldl (\<lambda>len u. len - int (length u) + TWITTER_URL_LENGTH)
       (int (length text)) (extractUrls text)"

subsection \<open>Articles and sub-scores (\<open>filter.js\<close>)\<close>

text \<open>
  An article object with the fields the pipeline reads and writes. \<open>publishDate\<close> is
  the time value of the parsed date string. The fields prefixed \<open>a_\<close> are absent
  (\<open>undefined\<close>) until a later stage sets them: \<open>apiUsed\<close> and \<open>scrapedAt\<close> by the scraper,
  \<open>categoryRank\<close>, \<open>postingSlot\<close>, \<open>postNumber\<close> and \<open>mabQuoteNumber\<close> by the selector.
\<close>

record article =
  headline :: string
  url :: string
  source :: string
  publishDate :: "int option"
  summary :: string
  category :: string
  score :: int
  a_apiUsed :: "string option"
  a_categoryRank :: "nat option"
  a_postingSlot :: "string option"
  a_postNumber :: "nat option"
  a_mabQuoteNumber :: "nat option"
  a_scrapedAt :: "int option"

datatype error = Error string

text \<open>The template string \<open>`${article.headline} ${article.summary}`\<close>.\<close>

definition articleText :: "article \<Rightarrow> string" where
  "articleText a = headline a @ '' '' @ summary a"

definition businessKeywords :: "string list" where
  "businessKeywords = [''ROI'', ''revenue'', ''growth'', ''efficiency'', ''productivity'',
     ''cost'', ''profit'', ''implementation'', ''adoption'', ''strategy'']"

definition calculateEngagementScoreHeuristic :: "article \<Rightarrow> int" where
  "calculateEngagementScoreHeuristic a =
     (let score = 0;
          text = articleText a;
          score = (if isProvocative text then score + 5 else score);
          score = (if containsQuestion text then score + 3 else score);
          score = (if testWords [''should'', ''must'', ''need'', ''wrong'', ''right'', ''better'',
                                 ''worse'', ''best'', ''worst''] text
                   then score + 2 else score);
          businessMatches =
            filter (\<lambda>k. includesStr (toLowerCase text) (toLowerCase k)) businessKeywords;
          score = score + min (int (length businessMatches) * 2) 10;
          score = (if testWords [''study'', ''research'', ''report'', ''survey'', ''data'',
                                 ''announce'', ''launch'', ''release'', ''unveil''] text
                   then score + 5 else score)
      in min score 25)"

definition majorEntities :: "string list" where
  "majorEntities = [''OpenAI'', ''Google'', ''Microsoft'', ''Apple'', ''Meta'', ''Amazon'',
     ''Anthropic'', ''Elon Musk'', ''Sam Altman'', ''Satya Nadella'', ''Sundar Pichai'',
     ''Mark Zuckerberg'', ''GPT'', ''ChatGPT'', ''Claude'', ''Gemini'', ''Copilot'']"

text \<open>
  The breaking-news pattern \<open>/\b(just|breaking|now|today|announces?|launches?|reveals?)\b/i\<close>,
  each optional \<open>s\<close> written out.
\<close>

definition breakingWords :: "string list" where
  "breakingWords = [''just'', ''breaking'', ''now'', ''today'', ''announce'', ''announces'',
     ''launche'', ''launches'', ''reveal'', ''reveals'']"

definition calculateViralityScore :: "article \<Rightarrow> int" where
  "calculateViralityScore a =
     (let score = 0;
          text = articleText a;
          score = (if containsStatistics text then score + 5 else score);
          score = (if containsQuestion (headline a) \<or> isProvocative (headline a)
                   then score + 5 else score);
          score = (if containsKeywords text majorEntities then score + 5 else score);
          score = (if testWords breakingWords text then score + 5 else score)
      in min score 20)"

definition seoKeywords :: "string list" where
  "seoKeywords = [''AI strategy'', ''automation'', ''mid-market'', ''enterprise'',
     ''digital transformation'', ''business intelligence'', ''ROI'']"

definition b2bKeywords :: "string list" where
  "b2bKeywords = [''B2B'', ''enterprise'', ''business'', ''corporate'', ''company'',
     ''organization'', ''industry'', ''sector'', ''market'']"

definition calculateSeoScore :: "article \<Rightarrow> int" where
  "calculateSeoScore a =
     (let score = 0;
          text = articleText a;
          score = (if containsKeywords text seoKeywords then score + 5 else score);
          score = (if containsKeywords text b2bKeywords then score + 5 else score)
      in min score 10)"

subsection \<open>AI-assisted engagement score (\<open>filter.js\<close>)\<close>

text \<open>
  \<open>parseInt(s, 10)\<close>: leading white space is skipped, an optional sign is read, then
  the longest run of decimal digits; no digit gives NaN, here \<open>None\<close>. The value is an
  unbounded integer; the source only ever clamps it to \<open>[0, 25]\<close>, which agrees with
  the clamp of the rounded double.
\<close>

definition digitValue :: "char \<Rightarrow> int" where
  "digitValue c =
     (case map_of (zip ''0123456789'' [0, 1, 2, 3, 4, 5, 6, 7, 8, 9]) c of
        Some v \<Rightarrow> v
      | None \<Rightarrow> 0)"

definition parseInt :: "string \<Rightarrow> int option" where
  "parseInt s =
     (let t = dropWhile isSpace s;
          sgn = (case t of c # _ \<Rightarrow> (if c = CHR ''-'' then - 1 else 1) | [] \<Rightarrow> 1);
          u = (case t of c # r \<Rightarrow> (if c = CHR ''-'' \<or> c = CHR ''+'' then r else t) | [] \<Rightarrow> t);
          ds = takeWhile isDigit u
      in if ds = [] then None else Some (sgn * foldl (\<lambda>n c. 10 * n + digitValue c) 0 ds))"

text \<open>
  The value of \<open>this.aiProvider\<close>; \<open>getAIProvider\<close> yields the first three, the last
  stands for any other string, which reaches the final \<open>return\<close> of
  \<open>calculateEngagementScoreAI\<close>.
\<close>

datatype aiProvider = Heuristic | OpenAI | Anthropic | OtherProvider

text \<open>
  What the request to the text-completion service does: it throws (\<open>fetch\<close> rejects,
  the status is not ok, the body is not JSON, the payload lacks the array that is
  indexed, the content is not a string), or the optional chain yields the content:
  a string, or \<open>undefined\<close>.
\<close>

datatype aiReply = RequestFailed string | Content "string option"

text \<open>
  \<open>isNaN(score) ? 12 : Math.min(Math.max(score, 0), 25)\<close>, after
  \<open>parseInt(content?.trim(), 10)\<close>; \<open>parseInt(undefined)\<close> is NaN.
\<close>

definition scoreOfContent :: "string option \<Rightarrow> int" where
  "scoreOfContent c =
     (case (case c of None \<Rightarrow> None | Some scoreText \<Rightarrow> parseInt (trim scoreText)) of
        None \<Rightarrow> 12
      | Some n \<Rightarrow> min (max n 0) 25)"

definition calculateEngagementScoreAI :: "aiProvider \<Rightarrow> aiReply \<Rightarrow> article \<Rightarrow> error + int" where
  "calculateEngagementScoreAI provider reply a =
     (if provider = OpenAI then
        (case reply of
           RequestFailed m \<Rightarrow> Inl (Error m)
         | Content c \<Rightarrow> Inr (scoreOfContent c))
      else if provider = Anthropic then
        (case reply of
           RequestFailed m \<Rightarrow> Inl (Error m)
         | Content c \<Rightarrow> Inr (scoreOfContent c))
      else Inr (calculateEngagementScoreHeuristic a))"

text \<open>\<open>calculateEngagementScore(article)\<close>: the \<open>try\<close>/\<open>catch\<close> around the AI path.\<close>

definition calculateEngagementScore :: "aiProvider \<Rightarrow> aiReply \<Rightarrow> article \<Rightarrow> error + int" where
  "calculateEngagementScore provider reply a =
     (if provider = Heuristic then Inr (calculateEngagementScoreHeuristic a)
      else (case calculateEngagementScoreAI provider reply a of
              Inl e \<Rightarrow> Inr (calculateEngagementScoreHeuristic a)
            | Inr v \<Rightarrow> Inr v))"

subsection \<open>Selection of the top articles (\<open>filter.js\<close>)\<close>

definition CATEGORY_IDS :: "string list" where
  "CATEGORY_IDS = [''ai-providers'', ''business-ai'', ''ai-safety'']"

definition MIN_SCORE_THRESHOLD :: int where
  "MIN_SCORE_THRESHOLD = 60"

definition ARTICLES_PER_CATEGORY :: nat where
  "ARTICLES_PER_CATEGORY = 3"

text \<open>
  Both the selector and the scheduler group the articles in a plain object keyed by
  category: \<open>if (!byCat[c]) byCat[c] = []; byCat[c].push(article)\<close>. For a category that
  names a property every object inherits, the look-up yields that property, which has
  no \<open>push\<close>, and the call throws a \<open>TypeError\<close>. For every other category the group is
  the sub-list of the articles of that category, in the order of the input.
\<close>

definition inheritedKeys :: "string list" where
  "inheritedKeys = [''constructor'', ''toString'', ''toLocaleString'', ''valueOf'',
     ''hasOwnProperty'', ''isPrototypeOf'', ''propertyIsEnumerable'', ''__proto__'',
     ''__defineGetter__'', ''__defineSetter__'', ''__lookupGetter__'', ''__lookupSetter__'']"

definition groupable :: "article list \<Rightarrow> bool" where
  "groupable arts = (\<not> list_ex (\<lambda>a. category a \<in> set inheritedKeys) arts)"

definition articlesOfCategory :: "article list \<Rightarrow> string \<Rightarrow> article list" where
  "articlesOfCategory arts c = filter (\<lambda>a. category a = c) arts"

text \<open>\<open>articlesToSelect.forEach((article, index) => article.categoryRank = index + 1)\<close>.\<close>

fun assignRanks :: "nat \<Rightarrow> article list \<Rightarrow> article list" where
  "assignRanks i [] = []"
| "assignRanks i (a # as) = a\<lparr>a_categoryRank := Some (i + 1)\<rparr> # assignRanks (i + 1) as"

text \<open>The body of the loop over \<open>CATEGORIES\<close> for one category.\<close>

definition selectForCategory :: "article list \<Rightarrow> article list" where
  "selectForCategory categoryArticles =
     (let qualifiedArticles = filter (\<lambda>a. score a \<ge> MIN_SCORE_THRESHOLD) categoryArticles;
          articlesToSelect =
            (if length qualifiedArticles \<ge> ARTICLES_PER_CATEGORY
             then take ARTICLES_PER_CATEGORY qualifiedArticles
             else take ARTICLES_PER_CATEGORY categoryArticles)
      in assignRanks 0 articlesToSelect)"

text \<open>\<open>articles.find(p)\<close> followed by assignments to the article found.\<close>

fun updateFirst :: "('a \<Rightarrow> bool) \<Rightarrow> ('a \<Rightarrow> 'a) \<Rightarrow> 'a list \<Rightarrow> 'a list" where
  "updateFirst p f [] = []"
| "updateFirst p f (x # xs) = (if p x then f x # xs else x # updateFirst p f xs)"

text \<open>
  \<open>assignPostingSlots(articles)\<close>; \<open>quoteId\<close> is the id of \<open>getQuoteForDay()\<close>.
\<close>

definition assignSlot :: "nat \<Rightarrow> timeSlot \<Rightarrow> article list \<Rightarrow> article list" where
  "assignSlot quoteId slot arts =
     updateFirst
       (\<lambda>a. category a = categoryId slot \<and> a_categoryRank a = Some (categoryRank slot))
       (\<lambda>a. (if includeQuote slot then (\<lambda>b. b\<lparr>a_mabQuoteNumber := Some quoteId\<rparr>) else id)
               (a\<lparr>a_postingSlot := Some (showNat (nat (hour slot)) @ '':00''),
                  a_postNumber := Some (postNumber slot)\<rparr>))
       arts"

definition assignPostingSlots :: "nat \<Rightarrow> article list \<Rightarrow> article list" where
  "assignPostingSlots quoteId arts =
     foldl (\<lambda>as slot. assignSlot quoteId slot as) arts POSTING_SCHEDULE"

definition selectTopArticles :: "nat \<Rightarrow> article list \<Rightarrow> error + article list" where
  "selectTopArticles quoteId scoredArticles =
     (if \<not> groupable scoredArticles
      then Inl (Error ''articlesByCategory[article.category].push is not a function'')
      else Inr (assignPostingSlots quoteId
             (concat (map (\<lambda>c. selectForCategory (articlesOfCategory scoredArticles c))
                        CATEGORY_IDS))))"

subsection \<open>The scheduler (\<open>services/scheduler.js\<close>)\<close>

datatype status = Pending | Ready | NoArticle | Posted | Failed

definition statusString :: "status \<Rightarrow> string" where
  "statusString st =
     (case st of Pending \<Rightarrow> ''pending'' | Ready \<Rightarrow> ''ready'' | NoArticle \<Rightarrow> ''no-article''
               | Posted \<Rightarrow> ''posted'' | Failed \<Rightarrow> ''failed'')"

record scheduledPost =
  p_id :: string
  p_postNumber :: nat
  p_hour :: int
  p_utcHour :: int
  p_categoryId :: string
  p_categoryRank :: nat
  p_includeQuote :: bool
  p_quoteId :: "nat option"
  p_article :: "article option"
  p_tweetText :: "string option"
  p_hashtags :: "string list"
  p_status :: status
  p_tweetId :: "string option"
  p_postedAt :: "int option"
  p_error :: "string option"

text \<open>
  The service's state: \<open>queue\<close> is a \<open>Map\<close> in insertion order, \<open>postedToday\<close> a \<open>Set\<close>.
  \<open>Map.set\<close> replaces the value of a present key in place and appends an absent one,
  which is \<open>AList.update\<close>.
\<close>

record scheduler =
  queue :: "(string \<times> scheduledPost) list"
  postedToday :: "string set"

definition newScheduler :: scheduler where
  "newScheduler = \<lparr>queue = [], postedToday = {}\<rparr>"

definition postOfSlot :: "int \<Rightarrow> nat \<Rightarrow> timeSlot \<Rightarrow> scheduledPost" where
  "postOfSlot now quoteId slot =
     \<lparr>p_id = getTodayString now @ ''-'' @ showNat (postNumber slot),
      p_postNumber = postNumber slot,
      p_hour = hour slot,
      p_utcHour = (if isEasternDST_schedule now then utcHourDST slot else utcHour slot),
      p_categoryId = categoryId slot,
      p_categoryRank = categoryRank slot,
      p_includeQuote = includeQuote slot,
      p_quoteId = (if includeQuote slot then Some quoteId else None),
      p_article = None,
      p_tweetText = None,
      p_hashtags = [],
      p_status = Pending,
      p_tweetId = None,
      p_postedAt = None,
      p_error = None\<rparr>"

text \<open>\<open>initializeDailySchedule()\<close> at the clock reading \<open>now\<close>.\<close>

definition initializeDailySchedule :: "int \<Rightarrow> nat \<Rightarrow> scheduler \<Rightarrow> scheduler" where
  "initializeDailySchedule now quoteId s =
     s\<lparr>queue := foldl (\<lambda>q slot. AList.update (getTodayString now @ ''-'' @ showNat (postNumber slot))
                                    (postOfSlot now quoteId slot) q)
                  (queue s) POSTING_SCHEDULE\<rparr>"

text \<open>
  The body of the assignment loop for one post: \<open>categoryArticles[post.categoryRank - 1]\<close>
  is \<open>undefined\<close> outside the array.
\<close>

definition assignPost :: "article list \<Rightarrow> scheduledPost \<Rightarrow> scheduledPost" where
  "assignPost rankedArticles post =
     (let categoryArticles = articlesOfCategory rankedArticles (p_categoryId post)
      in if 1 \<le> p_categoryRank post \<and> p_categoryRank post \<le> length categoryArticles
         then post\<lparr>p_article := Some (categoryArticles ! (p_categoryRank post - 1)),
                   p_status := Ready\<rparr>
         else post\<lparr>p_status := NoArticle\<rparr>)"

definition assignArticlesToSchedule :: "article list \<Rightarrow> scheduler \<Rightarrow> error + scheduler" where
  "assignArticlesToSchedule rankedArticles s =
     (if \<not> groupable rankedArticles
      then Inl (Error ''articlesByCategory[article.category].push is not a function'')
      else Inr (s\<lparr>queue := map (\<lambda>(k, post). (k, assignPost rankedArticles post)) (queue s)\<rparr>))"

text \<open>The id of the post of the current time slot, as \<open>getCurrentPost\<close> computes it.\<close>

definition currentPostId :: "int \<Rightarrow> string option" where
  "currentPostId now =
     (let isDST = isEasternDST_schedule now;
          h = getUTCHours now
      in case getTimeSlotForUTCHour h isDST of
           None \<Rightarrow> None
         | Some timeSlot \<Rightarrow> Some (getTodayString now @ ''-'' @ showNat (postNumber timeSlot)))"

definition getCurrentPost :: "scheduler \<Rightarrow> int \<Rightarrow> scheduledPost option" where
  "getCurrentPost s now =
     (case currentPostId now of
        None \<Rightarrow> None
      | Some postId \<Rightarrow>
          (case map_of (queue s) postId of
             None \<Rightarrow> None
           | Some post \<Rightarrow> if postId \<in> postedToday s then None else Some post))"

definition markPosted :: "scheduler \<Rightarrow> string \<Rightarrow> string \<Rightarrow> int \<Rightarrow> scheduler" where
  "markPosted s postId tweetId now =
     (case map_of (queue s) postId of
        None \<Rightarrow> s
      | Some post \<Rightarrow>
          s\<lparr>queue := AList.update postId
                        (post\<lparr>p_status := Posted, p_tweetId := Some tweetId,
                              p_postedAt := Some now\<rparr>) (queue s),
            postedToday := insert postId (postedToday s)\<rparr>)"

definition markFailed :: "scheduler \<Rightarrow> string \<Rightarrow> string \<Rightarrow> scheduler" where
  "markFailed s postId err =
     (case map_of (queue s) postId of
        None \<Rightarrow> s
      | Some post \<Rightarrow>
          s\<lparr>queue := AList.update postId (post\<lparr>p_status := Failed, p_error := Some err\<rparr>)
                        (queue s)\<rparr>)"

definition setTweetContent :: "scheduler \<Rightarrow> string \<Rightarrow> string \<Rightarrow> string list \<Rightarrow> scheduler" where
  "setTweetContent s postId tweetText hashtags =
     (case map_of (queue s) postId of
        None \<Rightarrow> s
      | Some post \<Rightarrow>
          s\<lparr>queue := AList.update postId
                        (post\<lparr>p_tweetText := Some tweetText, p_hashtags := hashtags\<rparr>)
                        (queue s)\<rparr>)"

definition clearSchedule :: "scheduler \<Rightarrow> scheduler" where
  "clearSchedule s = s\<lparr>queue := [], postedToday := {}\<rparr>"

text \<open>\<open>importSchedule(schedule)\<close>: the queue is cleared, the set of posted ids is not.\<close>

definition importSchedule :: "scheduledPost list \<Rightarrow> scheduler \<Rightarrow> scheduler" where
  "importSchedule schedule s =
     foldl (\<lambda>t post.
              t\<lparr>queue := AList.update (p_id post) post (queue t),
                postedToday := (if p_status post = Posted
                                then insert (p_id post) (postedToday t)
                                else postedToday t)\<rparr>)
       (s\<lparr>queue := []\<rparr>) schedule"

subsection \<open>The publish driver (\<open>agents/poster.js\<close>)\<close>

text \<open>
  What the collaborators do during one invocation of \<open>PosterAgent.run\<close>: the composer
  (\<open>createTweetContent\<close>, for the post's own tone and for the forced alternate tone),
  the duplicate check (which catches its own errors), the publish call, the log to the
  sheet (\<open>None\<close> when it succeeds), the dry-run switch and the synthetic id of a dry run.
\<close>

record runEnv =
  env_dryRun :: bool
  env_tweetContent :: "error + string \<times> string list"
  env_isDuplicate :: "string \<Rightarrow> bool"
  env_alternateContent :: "error + string"
  env_postTweet :: "string \<Rightarrow> error + string"
  env_logPostedTweet :: "error option"
  env_dryRunId :: string

text \<open>The calls made to the outside, in order.\<close>

datatype effect = PostTweet string | LogPostedTweet string | SendErrorAlert string

record runResult =
  r_success :: bool
  r_message :: "string option"
  r_error :: "string option"
  r_post :: "(string \<times> string \<times> string) option"

text \<open>
  The \<open>try\<close> block of \<open>run\<close> after the post was found ready: the new state, the
  exception or the published post (post id, tweet id, text), and the calls made.
\<close>

definition attempt ::
  "runEnv \<Rightarrow> scheduler \<Rightarrow> scheduledPost \<Rightarrow> int
     \<Rightarrow> scheduler \<times> (error + string \<times> string \<times> string) \<times> effect list" where
  "attempt env s post now =
     (case env_tweetContent env of
        Inl e \<Rightarrow> (s, Inl e, [])
      | Inr (text0, hashtags) \<Rightarrow>
          (case (if env_isDuplicate env text0 then env_alternateContent env else Inr text0) of
             Inl e \<Rightarrow> (s, Inl e, [])
           | Inr text \<Rightarrow>
               if env_dryRun env
               then (markPosted s (p_id post) (env_dryRunId env) now,
                     Inr (p_id post, env_dryRunId env, text), [])
               else (case env_postTweet env text of
                       Inl e \<Rightarrow> (s, Inl e, [PostTweet text])
                     | Inr tweetId \<Rightarrow>
                         (let s' = markPosted s (p_id post) tweetId now
                          in case env_logPostedTweet env of
                               Some e \<Rightarrow> (s', Inl e, [PostTweet text, LogPostedTweet tweetId])
                             | None \<Rightarrow> (s', Inr (p_id post, tweetId, text),
                                         [PostTweet text, LogPostedTweet tweetId])))))"

text \<open>\<open>PosterAgent.run\<close>; the \<open>catch\<close> block sets the result and sends the alert.\<close>

definition run :: "runEnv \<Rightarrow> scheduler \<Rightarrow> int \<Rightarrow> scheduler \<times> runResult \<times> effect list" where
  "run env s now =
     (case getCurrentPost s now of
        None \<Rightarrow>
          (s, \<lparr>r_success = True, r_message = Some ''No post scheduled'', r_error = None,
               r_post = None\<rparr>, [])
      | Some post \<Rightarrow>
          if p_status post \<noteq> Ready
          then (s, \<lparr>r_success = False, r_message = None,
                    r_error = Some (''Post not ready: '' @ statusString (p_status post)),
                    r_post = None\<rparr>, [])
          else (case attempt env s post now of
                  (s', Inl (Error m), effs) \<Rightarrow>
                    (s', \<lparr>r_success = False, r_message = None, r_error = Some m,
                          r_post = None\<rparr>, effs @ [SendErrorAlert m])
                | (s', Inr published, effs) \<Rightarrow>
                    (s', \<lparr>r_success = True, r_message = None, r_error = None,
                          r_post = Some published\<rparr>, effs)))"

text \<open>\<open>PosterAgent.retryPost(postId)\<close>.\<close>

definition retryPost ::
  "runEnv \<Rightarrow> scheduler \<Rightarrow> string \<Rightarrow> int \<Rightarrow> scheduler \<times> runResult \<times> effect list" where
  "retryPost env s postId now =
     (case map_of (queue s) postId of
        None \<Rightarrow>
          (s, \<lparr>r_success = False, r_message = None, r_error = Some ''Post not found'',
               r_post = None\<rparr>, [])
      | Some post \<Rightarrow>
          if p_status post \<noteq> Failed
          then (s, \<lparr>r_success = False, r_message = None,
                    r_error = Some (''Post status is '' @ statusString (p_status post)
                                    @ '', not failed''),
                    r_post = None\<rparr>, [])
          else run env (s\<lparr>queue := AList.update postId (post\<lparr>p_status := Ready\<rparr>) (queue s)\<rparr>)
                 now)"

text \<open>The states the service can be in: any sequence of its operations from a new one.\<close>

inductive reachable :: "scheduler \<Rightarrow> bool" where
  reach_new: "reachable newScheduler"
| reach_init: "reachable s \<Longrightarrow> reachable (initializeDailySchedule now quoteId s)"
| reach_assign: "reachable s \<Longrightarrow> assignArticlesToSchedule arts s = Inr s' \<Longrightarrow> reachable s'"
| reach_posted: "reachable s \<Longrightarrow> reachable (markPosted s postId tweetId now)"
| reach_failed: "reachable s \<Longrightarrow> reachable (markFailed s postId err)"
| reach_content: "reachable s \<Longrightarrow> reachable (setTweetContent s postId text hashtags)"
| reach_clear: "reachable s \<Longrightarrow> reachable (clearSchedule s)"
| reach_import: "reachable s \<Longrightarrow> reachable (importSchedule schedule s)"
| reach_run: "reachable s \<Longrightarrow> run env s now = (s', res, effs) \<Longrightarrow> reachable s'"
| reach_retry: "reachable s \<Longrightarrow> retryPost env s postId now = (s', res, effs) \<Longrightarrow> reachable s'"

subsection \<open>The posting trigger (\<open>index.js\<close>)\<close>

text \<open>
  \<open>exportSchedule()\<close>: the posts in queue order, each with a copy of its article that
  holds the headline, the URL and the source only. The fields the copy lacks are read
  by nobody afterwards; the record holds the empty string, zero and \<open>None\<close> for them.
\<close>

definition exportArticle :: "article \<Rightarrow> article" where
  "exportArticle a =
     \<lparr>headline = headline a, url = url a, source = source a, publishDate = None,
      summary = [], category = [], score = 0, a_apiUsed = None, a_categoryRank = None,
      a_postingSlot = None, a_postNumber = None, a_mabQuoteNumber = None,
      a_scrapedAt = None\<rparr>"

definition exportSchedule :: "scheduler \<Rightarrow> scheduledPost list" where
  "exportSchedule s =
     map (\<lambda>(k, post). post\<lparr>p_article := map_option exportArticle (p_article post)\<rparr>) (queue s)"

text \<open>
  The \<open>try\<close> block of \<open>runPosting\<close>. \<open>headlines\<close> is the outcome of reading the sheet
  \<open>Headlines_<today>\<close>: \<open>Inl\<close> when the read throws, else the articles that the rows
  after the header row are mapped to (there is such a row exactly when
  \<open>headlines.length > 1\<close>); the mapping fills the headline, the URL, the source, the
  score, the category, the rank, the posting slot and the quote number. An exception
  of the read or of the assignment is caught and logged; the grouping loop of the
  assignment throws before any post is changed.
\<close>

definition loadHeadlines :: "error + article list \<Rightarrow> scheduler \<Rightarrow> scheduler" where
  "loadHeadlines headlines s =
     (case headlines of
        Inl e \<Rightarrow> s
      | Inr articles \<Rightarrow>
          if articles = [] then s
          else (case assignArticlesToSchedule articles s of Inl e \<Rightarrow> s | Inr s' \<Rightarrow> s'))"

text \<open>
  The state of the scheduler of the \<open>PosterAgent\<close> that \<open>runPosting\<close> creates, at the
  call of \<open>poster.run\<close>: a new \<open>SchedulerService\<close> is initialized for today, the articles
  of the sheet are assigned, and its export is imported into the new scheduler of the
  new agent. Nothing is read from an earlier invocation.
\<close>

definition posterState :: "int \<Rightarrow> nat \<Rightarrow> error + article list \<Rightarrow> scheduler" where
  "posterState now quoteId headlines =
     importSchedule
       (exportSchedule (loadHeadlines headlines (initializeDailySchedule now quoteId newScheduler)))
       newScheduler"

text \<open>
  \<open>runPosting(config, utcHour)\<close>, called by \<open>scheduled\<close> in a posting slot and by the
  route \<open>/trigger/post\<close>, at the clock reading \<open>now\<close>; \<open>run\<close> does not read its
  parameter \<open>utcHour\<close>.
\<close>

definition runPosting ::
  "runEnv \<Rightarrow> int \<Rightarrow> nat \<Rightarrow> error + article list \<Rightarrow> scheduler \<times> runResult \<times> effect list" where
  "runPosting env now quoteId headlines = run env (posterState now quoteId headlines) now"

subsection \<open>The candidate collector (\<open>agents/scraper.js\<close>, \<open>utils/validator.js\<close>)\<close>

definition MIN_ARTICLES_PER_CATEGORY :: nat where
  "MIN_ARTICLES_PER_CATEGORY = 5"

definition TARGET_ARTICLES_PER_CATEGORY :: nat where
  "TARGET_ARTICLES_PER_CATEGORY = 15"

definition MAX_RETRIES :: nat where
  "MAX_RETRIES = 2"

text \<open>
  An item of a provider's payload, as \<open>sanitizeArticle\<close> reads it: each field is absent
  or a string, under either of the names the providers use; the source is a string or
  an object with a name; a date field, when present, carries the time value its string
  parses to, or \<open>None\<close> when it does not parse.
\<close>

datatype rawSource = NoSource | SourceText string | SourceObject "string option"

record rawArticle =
  raw_headline :: "string option"
  raw_title :: "string option"
  raw_url :: "string option"
  raw_link :: "string option"
  raw_source :: rawSource
  raw_publishDate :: "int option option"
  raw_publishedAt :: "int option option"
  raw_published_date :: "int option option"
  raw_summary :: "string option"
  raw_description :: "string option"
  raw_content :: "string option"
  raw_category :: "string option"

text \<open>\<open>a || b || ... || d\<close> over strings: the first that is present and not empty.\<close>

fun firstTruthy :: "string option list \<Rightarrow> string \<Rightarrow> string" where
  "firstTruthy [] d = d"
| "firstTruthy (None # xs) d = firstTruthy xs d"
| "firstTruthy (Some s # xs) d = (if s = [] then firstTruthy xs d else s)"

fun firstPresent :: "'a option list \<Rightarrow> 'a \<Rightarrow> 'a" where
  "firstPresent [] d = d"
| "firstPresent (None # xs) d = firstPresent xs d"
| "firstPresent (Some x # xs) d = x"

text \<open>
  \<open>sanitizeArticle(article)\<close> at the clock reading \<open>now\<close>; a payload item that is not an
  object, here \<open>None\<close>, gives \<open>null\<close>. A source object without a name is turned into
  a string by \<open>String\<close>.
\<close>

definition sanitizeArticle :: "int \<Rightarrow> rawArticle option \<Rightarrow> article option" where
  "sanitizeArticle now item =
     (case item of
        None \<Rightarrow> None
      | Some r \<Rightarrow>
          Some \<lparr>headline = take 500 (trim (firstTruthy [raw_headline r, raw_title r] [])),
                url = trim (firstTruthy [raw_url r, raw_link r] []),
                source =
                  trim (case raw_source r of
                          SourceObject n \<Rightarrow> firstTruthy [n] ''[object Object]''
                        | SourceText t \<Rightarrow> firstTruthy [Some t] ''Unknown''
                        | NoSource \<Rightarrow> ''Unknown''),
                publishDate =
                  firstPresent [raw_publishDate r, raw_publishedAt r, raw_published_date r]
                    (Some now),
                summary =
                  take 1000
                    (trim (firstTruthy [raw_summary r, raw_description r, raw_content r] [])),
                category = trim (firstTruthy [raw_category r] []),
                score = 0, a_apiUsed = None, a_categoryRank = None, a_postingSlot = None,
                a_postNumber = None, a_mabQuoteNumber = None, a_scrapedAt = None\<rparr>)"

text \<open>
  \<open>validateArticle(article).valid\<close> for an article object after \<open>sanitizeArticle\<close>, which
  makes every field a string and the publish date present. \<open>isValidUrl\<close> stands for the
  platform's URL parser accepting the string with the scheme http or https.
\<close>

definition validateArticle :: "(string \<Rightarrow> bool) \<Rightarrow> article \<Rightarrow> bool" where
  "validateArticle isValidUrl a =
     (headline a \<noteq> [] \<and> length (headline a) \<ge> 10
      \<and> url a \<noteq> [] \<and> isValidUrl (url a)
      \<and> source a \<noteq> []
      \<and> summary a \<noteq> [] \<and> length (summary a) \<ge> 20
      \<and> category a \<noteq> []
      \<and> publishDate a \<noteq> None)"

text \<open>
  The URL normalisation of \<open>deduplicateArticles\<close>:
  \<open>url.replace(/\/$/, '').replace(/\?.*$/, '').toLowerCase()\<close>. The second pattern matches
  at the first question mark that no line terminator follows.
\<close>

definition stripTrailingSlash :: "string \<Rightarrow> string" where
  "stripTrailingSlash u = (if u \<noteq> [] \<and> last u = CHR ''/'' then butlast u else u)"

fun stripQuery :: "string \<Rightarrow> string" where
  "stripQuery [] = []"
| "stripQuery (c # cs) =
     (if c = CHR ''?'' \<and> \<not> list_ex isLineTerminator cs then [] else c # stripQuery cs)"

definition normalizeUrl :: "string \<Rightarrow> string" where
  "normalizeUrl u = toLowerCase (stripQuery (stripTrailingSlash u))"

fun dedupFrom :: "string list \<Rightarrow> article list \<Rightarrow> article list" where
  "dedupFrom seen [] = []"
| "dedupFrom seen (a # as) =
     (if url a = [] then dedupFrom seen as
      else if normalizeUrl (url a) \<in> set seen then dedupFrom seen as
      else a # dedupFrom (normalizeUrl (url a) # seen) as)"

definition deduplicateArticles :: "article list \<Rightarrow> article list" where
  "deduplicateArticles arts = dedupFrom [] arts"

text \<open>
  \<open>enrichArticle(article, categoryId, apiUsed)\<close>; \<open>null\<close> stays \<open>null\<close>. The clock is read
  for every article; one reading \<open>now\<close> stands for the readings of a collection.
\<close>

definition enrichArticle :: "int \<Rightarrow> rawArticle option \<Rightarrow> string \<Rightarrow> string \<Rightarrow> article option" where
  "enrichArticle now item cid api =
     (case sanitizeArticle now item of
        None \<Rightarrow> None
      | Some sanitized \<Rightarrow>
          Some (sanitized\<lparr>category := cid, a_apiUsed := Some api, a_scrapedAt := Some now\<rparr>))"

text \<open>
  The retry loop of \<open>scrapeWithPerplexity\<close>: \<open>search i\<close> is the outcome of the call to the
  provider in attempt \<open>i\<close>; the first success ends the loop, and after the last
  failure the last error is thrown. The mapping and the filter are inside the \<open>try\<close>
  of the attempt: for a \<open>null\<close> article the filter reads \<open>article.headline\<close> to log
  it, which throws, and the attempt counts as failed.
\<close>

fun attempts :: "(nat \<Rightarrow> error + 'a) \<Rightarrow> nat list \<Rightarrow> error \<Rightarrow> error + 'a" where
  "attempts search [] lastError = Inl lastError"
| "attempts search (i # is) lastError =
     (case search i of Inr x \<Rightarrow> Inr x | Inl e \<Rightarrow> attempts search is e)"

definition perplexityAttempt ::
  "(string \<Rightarrow> bool) \<Rightarrow> int \<Rightarrow> string \<Rightarrow> (error + rawArticle option list)
     \<Rightarrow> error + article list" where
  "perplexityAttempt isValidUrl now cid outcome =
     (case outcome of
        Inl e \<Rightarrow> Inl e
      | Inr articles \<Rightarrow>
          (let enriched = map (\<lambda>item. enrichArticle now item cid ''perplexity'') articles
           in if list_ex (\<lambda>a. a = None) enriched
              then Inl (Error ''Cannot read properties of null (reading 'headline')'')
              else Inr (filter (validateArticle isValidUrl) (List.map_filter id enriched))))"

definition scrapeWithPerplexity ::
  "(string \<Rightarrow> bool) \<Rightarrow> int \<Rightarrow> (nat \<Rightarrow> error + rawArticle option list) \<Rightarrow> string
     \<Rightarrow> error + article list" where
  "scrapeWithPerplexity isValidUrl now search cid =
     attempts (\<lambda>i. perplexityAttempt isValidUrl now cid (search i)) [0..<MAX_RETRIES + 1]
       (Error ''null'')"

text \<open>
  \<open>scrapeWithNewsApi\<close>: its filter does not log, so a \<open>null\<close> article is only dropped.
\<close>

definition scrapeWithNewsApi ::
  "(string \<Rightarrow> bool) \<Rightarrow> int \<Rightarrow> (error + rawArticle option list) \<Rightarrow> string
     \<Rightarrow> error + article list" where
  "scrapeWithNewsApi isValidUrl now search cid =
     (case search of
        Inl e \<Rightarrow> Inl e
      | Inr articles \<Rightarrow>
          Inr (filter (validateArticle isValidUrl)
                 (List.map_filter id
                    (map (\<lambda>item. enrichArticle now item cid ''newsapi'') articles))))"

record collectionResult =
  c_categoryId :: string
  c_success :: bool
  c_articles :: "article list"
  c_apiUsed :: "string option"
  c_error :: "string option"
  c_perplexityCount :: "nat option"
  c_perplexityArticles :: "article list option"
  c_perplexityError :: "string option"
  c_newsApiError :: "string option"

text \<open>
  \<open>scrapeCategory(category)\<close> in its three stages. The result is paired with whether
  the critical-failure alert was sent. \<open>previousDay\<close> is the outcome of
  \<open>getPreviousDayArticles\<close>.
\<close>

definition previousDayStage ::
  "(error + article list) \<Rightarrow> collectionResult \<Rightarrow> collectionResult \<times> bool" where
  "previousDayStage previousDay result =
     (case previousDay of
        Inr previousDayArticles \<Rightarrow>
          if length previousDayArticles > 0
          then (result\<lparr>c_articles := previousDayArticles, c_apiUsed := Some ''previous-day'',
                       c_success := True\<rparr>, False)
          else (result\<lparr>c_error := Some ''All scraping methods failed''\<rparr>, True)
      | Inl e \<Rightarrow> (result\<lparr>c_error := Some ''All scraping methods failed''\<rparr>, True))"

definition newsApiStage ::
  "(error + article list) \<Rightarrow> (error + article list) \<Rightarrow> collectionResult
     \<Rightarrow> collectionResult \<times> bool" where
  "newsApiStage newsApi previousDay result =
     (case newsApi of
        Inr newsApiArticles \<Rightarrow>
          (let combined = deduplicateArticles
                 ((case c_perplexityArticles result of None \<Rightarrow> [] | Some ps \<Rightarrow> ps)
                  @ newsApiArticles)
           in if length combined \<ge> MIN_ARTICLES_PER_CATEGORY
              then (result\<lparr>c_articles := take TARGET_ARTICLES_PER_CATEGORY combined,
                           c_apiUsed :=
                             Some (if (case c_perplexityArticles result of
                                         None \<Rightarrow> False | Some ps \<Rightarrow> length ps > 0)
                                   then ''combined'' else ''newsapi''),
                           c_success := True\<rparr>, False)
              else previousDayStage previousDay result)
      | Inl (Error m) \<Rightarrow> previousDayStage previousDay (result\<lparr>c_newsApiError := Some m\<rparr>))"

definition scrapeCategory ::
  "string \<Rightarrow> (error + article list) \<Rightarrow> (error + article list) \<Rightarrow> (error + article list)
     \<Rightarrow> collectionResult \<times> bool" where
  "scrapeCategory cid perplexity newsApi previousDay =
     (let result = \<lparr>c_categoryId = cid, c_success = False, c_articles = [], c_apiUsed = None,
                     c_error = None, c_perplexityCount = None, c_perplexityArticles = None,
                     c_perplexityError = None, c_newsApiError = None\<rparr>
      in case perplexity of
           Inr articles \<Rightarrow>
             if length articles \<ge> MIN_ARTICLES_PER_CATEGORY
             then (result\<lparr>c_articles := articles, c_apiUsed := Some ''perplexity'',
                          c_success := True\<rparr>, False)
             else newsApiStage newsApi previousDay
                    (result\<lparr>c_perplexityCount := Some (length articles),
                            c_perplexityArticles := Some articles\<rparr>)
         | Inl (Error m) \<Rightarrow>
             newsApiStage newsApi previousDay (result\<lparr>c_perplexityError := Some m\<rparr>))"

text \<open>
  The collector for one category, from the providers' raw outcomes: the two scraping
  methods feed \<open>scrapeCategory\<close>.
\<close>

definition collect ::
  "(string \<Rightarrow> bool) \<Rightarrow> int \<Rightarrow> string \<Rightarrow> (nat \<Rightarrow> error + rawArticle option list)
     \<Rightarrow> (error + rawArticle option list) \<Rightarrow> (error + article list)
     \<Rightarrow> collectionResult \<times> bool" where
  "collect isValidUrl now cid perplexitySearch newsApiSearch previousDay =
     scrapeCategory cid
       (scrapeWithPerplexity isValidUrl now perplexitySearch cid)
       (scrapeWithNewsApi isValidUrl now newsApiSearch cid)
       previousDay"

subsection \<open>Views of a schedule\<close>

text \<open>
  The articles of every category listed in the order of their ranks \<open>1, 2, ...\<close>, as
  \<open>selectTopArticles\<close> lists them.
\<close>

definition rankedInOrder :: "article list \<Rightarrow> bool" where
  "rankedInOrder arts =
     list_all (\<lambda>c. map a_categoryRank (articlesOfCategory arts c)
                     = map Some [1..<Suc (length (articlesOfCategory arts c))])
       CATEGORY_IDS"

text \<open>
  Two invariants of the service's state: a post recorded as posted has its key in
  \<open>postedToday\<close>, and every post is stored under its own id.
\<close>

definition postedInv :: "scheduler \<Rightarrow> bool" where
  "postedInv s =
     (\<forall>k post. map_of (queue s) k = Some post \<and> p_status post = Posted \<longrightarrow> k \<in> postedToday s)"

definition keyInv :: "scheduler \<Rightarrow> bool" where
  "keyInv s = (\<forall>k post. map_of (queue s) k = Some post \<longrightarrow> p_id post = k)"

text \<open>
  Per post: its number, the rank of its slot, its status and the rank carried by the
  article bound to it.
\<close>

definition slate :: "scheduler \<Rightarrow> (nat \<times> nat \<times> status \<times> nat option) list" where
  "slate s =
     map (\<lambda>(k, post). (p_postNumber post, p_categoryRank post, p_status post,
                         case p_article post of None \<Rightarrow> None | Some a \<Rightarrow> a_categoryRank a))
       (queue s)"

text \<open>The fields of an article that the scorer produced; selection leaves them alone.\<close>

definition articleCore ::
  "article \<Rightarrow> string \<times> string \<times> string \<times> int option \<times> string \<times> string \<times> int" where
  "articleCore a =
     (headline a, url a, source a, publishDate a, summary a, category a, score a)"

subsection \<open>Sample articles\<close>

text \<open>Articles in the style of the repository's test fixtures (\<open>tests/filter.test.js\<close>).\<close>

definition testArticle :: "string \<Rightarrow> string \<Rightarrow> article" where
  "testArticle h s =
     \<lparr>headline = h, url = ''https://techcrunch.com/article'', source = ''TechCrunch'',
      publishDate = Some 0, summary = s, category = ''ai-providers'', score = 0,
      a_apiUsed = None, a_categoryRank = None, a_postingSlot = None, a_postNumber = None,
      a_mabQuoteNumber = None, a_scrapedAt = None\<rparr>"

definition breakingArticle :: article where
  "breakingArticle =
     testArticle ''Breaking: OpenAI Just Announced 100% Improvement?''
       ''OpenAI has unveiled significant improvements to their AI models.''"

definition neutralArticle :: article where
  "neutralArticle =
     testArticle ''Patch notes'' ''Minor fixes shipped.''"

definition rankedArticle :: "string \<Rightarrow> nat \<Rightarrow> int \<Rightarrow> article" where
  "rankedArticle c r sc =
     (testArticle ''OpenAI Announces Major AI Breakthrough''
        ''OpenAI has unveiled significant improvements.'')
       \<lparr>category := c, score := sc, a_categoryRank := Some r\<rparr>"

text \<open>The scored articles of the selection test in \<open>tests/filter.test.js\<close>.\<close>

definition scoredFixture :: "article list" where
  "scoredFixture =
     [(rankedArticle ''ai-providers'' 0 90)\<lparr>a_categoryRank := None\<rparr>,
      (rankedArticle ''ai-providers'' 0 85)\<lparr>a_categoryRank := None\<rparr>,
      (rankedArticle ''ai-providers'' 0 80)\<lparr>a_categoryRank := None\<rparr>,
      (rankedArticle ''ai-providers'' 0 75)\<lparr>a_categoryRank := None\<rparr>,
      (rankedArticle ''business-ai'' 0 70)\<lparr>a_categoryRank := None\<rparr>,
      (rankedArticle ''business-ai'' 0 65)\<lparr>a_categoryRank := None\<rparr>,
      (rankedArticle ''ai-safety'' 0 60)\<lparr>a_categoryRank := None\<rparr>]"

text \<open>
  A schedule of one ready post, the post of the first slot of 12 June 2024, and two
  behaviours of the collaborators: everything succeeds, or the publish call fails.
\<close>

definition readyPost :: scheduledPost where
  "readyPost =
     \<lparr>p_id = ''2024-06-12-1'', p_postNumber = 1, p_hour = 9, p_utcHour = 13,
      p_categoryId = ''ai-providers'', p_categoryRank = 1, p_includeQuote = False,
      p_quoteId = None, p_article = Some (rankedArticle ''ai-providers'' 1 90),
      p_tweetText = None, p_hashtags = [], p_status = Ready, p_tweetId = None,
      p_postedAt = None, p_error = None\<rparr>"

definition readyState :: scheduler where
  "readyState = importSchedule [readyPost] newScheduler"

definition workingEnv :: runEnv where
  "workingEnv =
     \<lparr>env_dryRun = False,
      env_tweetContent = Inr (''Worth watching https://techcrunch.com/article #AI'', [''#AI'']),
      env_isDuplicate = (\<lambda>t. False),
      env_alternateContent = Inr ''Hot take https://techcrunch.com/article #AI'',
      env_postTweet = (\<lambda>t. Inr ''1800000000000000001''),
      env_logPostedTweet = None,
      env_dryRunId = ''dry-run-1718197200000''\<rparr>"

definition failingEnv :: runEnv where
  "failingEnv = workingEnv\<lparr>env_postTweet := (\<lambda>t. Inl (Error ''Twitter API error: 503''))\<rparr>"

text \<open>
  The sheet of the day with one data row, the top article of the first category, as
  \<open>runPosting\<close> maps the row: headline, URL, source, score, category, rank and posting
  slot.
\<close>

definition headlinesSheet :: "error + article list" where
  "headlinesSheet =
     Inr [\<lparr>headline = ''OpenAI Announces Major AI Breakthrough'',
           url = ''https://techcrunch.com/article'', source = ''TechCrunch'',
           publishDate = None, summary = [], category = ''ai-providers'', score = 90,
           a_apiUsed = None, a_categoryRank = Some 1, a_postingSlot = Some ''9:00'',
           a_postNumber = None, a_mabQuoteNumber = None, a_scrapedAt = None\<rparr>]"

text \<open>
  Provider payloads for the collector: articles that differ in their URL, a primary
  provider that fails twice and then returns two articles, one that always fails, and
  a URL check that accepts the https scheme.
\<close>

definition payload :: "string \<Rightarrow> rawArticle option" where
  "payload u =
     Some \<lparr>raw_headline = Some ''  OpenAI Announces Major AI Breakthrough '', raw_title = None,
            raw_url = Some u, raw_link = None, raw_source = SourceObject (Some ''TechCrunch''),
            raw_publishDate = None, raw_publishedAt = Some (Some 1718190000000),
            raw_published_date = None, raw_summary = None,
            raw_description = Some ''OpenAI has unveiled significant improvements.'',
            raw_content = None, raw_category = None\<rparr>"

definition slowPrimary :: "nat \<Rightarrow> error + rawArticle option list" where
  "slowPrimary i =
     (if i < 2 then Inl (Error ''Perplexity API error: 429'')
      else Inr [payload ''https://a.example/1'', payload ''https://a.example/2''])"

definition deadPrimary :: "nat \<Rightarrow> error + rawArticle option list" where
  "deadPrimary i = Inl (Error ''Perplexity API error: 504'')"

definition backupFour :: "error + rawArticle option list" where
  "backupFour =
     Inr [payload ''https://b.example/1'', payload ''https://b.example/2'',
          payload ''https://A.example/2/?utm=x'', payload ''https://b.example/3'']"

definition previousTwo :: "error + article list" where
  "previousTwo =
     Inr [(testArticle ''OpenAI Announces Major AI Breakthrough''
             ''OpenAI has unveiled significant improvements.'')
            \<lparr>url := ''https://old.example/1'', a_apiUsed := Some ''previous-day''\<rparr>,
          (testArticle ''OpenAI Announces Major AI Breakthrough''
             ''OpenAI has unveiled significant improvements.'')
            \<lparr>url := ''https://old.example/2'', a_apiUsed := Some ''previous-day''\<rparr>]"

definition httpsOnly :: "string \<Rightarrow> bool" where
  "httpsOnly u = prefix ''https://'' u"

text \<open>Wednesday 12 June 2024, 13:00 UTC: 9 AM in New York, the slot of post 1.\<close>

definition juneMorning :: int where
  "juneMorning = 1718197200000"

text \<open>Tuesday 12 March 2024, 12:00 UTC, two days after the second Sunday of March.\<close>

definition marchNoon :: int where
  "marchNoon = 1710244800000"

section \<open>Properties\<close>

subsection \<open>Recency bands\<close>

text \<open>
  C5. For every publish timestamp the recency score is one of 0, 5, 10, 15, 20. With
  \<open>h\<close> the elapsed hours at evaluation time, that is the milliseconds from the publish
  timestamp to the clock reading divided by 3600000, the score is 20 exactly for
  \<open>0 \<le> h \<le> 6\<close>, 15 exactly for \<open>6 < h \<le> 12\<close>, 10 exactly for \<open>12 < h \<le> 18\<close>,
  5 exactly for \<open>18 < h \<le> 24\<close>, and 0 exactly for \<open>h > 24\<close> or \<open>h < 0\<close>. Hence the
  score never increases as \<open>h\<close> grows over \<open>h \<ge> 0\<close>. At the boundaries: a timestamp
  exactly 6, 12, 18 and 24 hours old scores 20, 15, 10 and 5, one millisecond or one
  second older scores 15, 10, 5 and 0, one of this instant scores 20, and one a
  millisecond in the future scores 0.
\<close>

theorem calculateRecencyScore_bands:
  fixes pd :: "int option" and d now da ta db tb :: int
  defines "h \<equiv> real_of_int (now - d) / 3600000"
    and "ha \<equiv> real_of_int (ta - da) / 3600000"
    and "hb \<equiv> real_of_int (tb - db) / 3600000"
  shows "calculateRecencyScore pd now \<in> {0, 5, 10, 15, 20}
   \<and> (calculateRecencyScore (Some d) now = 20 \<longleftrightarrow> 0 \<le> h \<and> h \<le> 6)
   \<and> (calculateRecencyScore (Some d) now = 15 \<longleftrightarrow> 6 < h \<and> h \<le> 12)
   \<and> (calculateRecencyScore (Some d) now = 10 \<longleftrightarrow> 12 < h \<and> h \<le> 18)
   \<and> (calculateRecencyScore (Some d) now = 5 \<longleftrightarrow> 18 < h \<and> h \<le> 24)
   \<and> (calculateRecencyScore (Some d) now = 0 \<longleftrightarrow> 24 < h \<or> h < 0)
   \<and> (0 \<le> ha \<and> ha \<le> hb
        \<longrightarrow> calculateRecencyScore (Some db) tb \<le> calculateRecencyScore (Some da) ta)
   \<and> map (\<lambda>ms. calculateRecencyScore (Some d) (d + ms))
        [- 1, 0, 21600000, 21600001, 21601000, 43200000, 43200001, 43201000,
         64800000, 64800001, 64801000, 86400000, 86400001, 86401000]
       = [0, 20, 20, 15, 15, 15, 10, 10, 10, 5, 5, 5, 0, 0]"
proof -
  have hours: "hoursBetween x y = real_of_int (y - x) / 3600000" for x y
    by (simp add: hoursBetween_def)
  have range: "calculateRecencyScore pd now \<in> {0, 5, 10, 15, 20}"
    by (cases pd) (simp_all add: Let_def)
  have bands:
    "(calculateRecencyScore (Some d) now = 20 \<longleftrightarrow> 0 \<le> h \<and> h \<le> 6)
     \<and> (calculateRecencyScore (Some d) now = 15 \<longleftrightarrow> 6 < h \<and> h \<le> 12)
     \<and> (calculateRecencyScore (Some d) now = 10 \<longleftrightarrow> 12 < h \<and> h \<le> 18)
     \<and> (calculateRecencyScore (Some d) now = 5 \<longleftrightarrow> 18 < h \<and> h \<le> 24)
     \<and> (calculateRecencyScore (Some d) now = 0 \<longleftrightarrow> 24 < h \<or> h < 0)"
    unfolding h_def hours [symmetric] by (simp add: Let_def)
  have mono: "0 \<le> ha \<and> ha \<le> hb
      \<longrightarrow> calculateRecencyScore (Some db) tb \<le> calculateRecencyScore (Some da) ta"
    unfolding ha_def hb_def hours [symmetric] by (simp add: Let_def)
  have points: "map (\<lambda>ms. calculateRecencyScore (Some d) (d + ms))
        [- 1, 0, 21600000, 21600001, 21601000, 43200000, 43200001, 43201000,
         64800000, 64800001, 64801000, 86400000, 86400001, 86401000]
       = [0, 20, 20, 15, 15, 15, 10, 10, 10, 5, 5, 5, 0, 0]"
    by (simp add: hours Let_def)
  from range bands mono points show ?thesis by blast
qed

text \<open>
  At a concrete clock, with the publish timestamp at 0: a timestamp one hour old
  scores no less than one seven hours old, and the scores at the band boundaries are
  those of the list.
\<close>

theorem calculateRecencyScore_bands_witness:
  "0 \<le> real_of_int (3600000 - 0) / 3600000
   \<and> real_of_int (3600000 - 0) / 3600000 \<le> real_of_int (25200000 - 0) / 3600000
   \<and> calculateRecencyScore (Some 0) 25200000 \<le> calculateRecencyScore (Some 0) 3600000
   \<and> calculateRecencyScore (Some 0) 21600000 = 20
   \<and> calculateRecencyScore (Some 0) 21601000 = 15
   \<and> calculateRecencyScore (Some 1718197200000) 1718197199999 = 0"
proof -
  have hyp: "0 \<le> real_of_int (3600000 - 0) / 3600000
     \<and> real_of_int (3600000 - 0) / 3600000 \<le> real_of_int (25200000 - 0) / 3600000"
    by simp
  note bands = calculateRecencyScore_bands [where pd = None and d = 0 and now = 0 and da = 0
    and ta = 3600000 and db = 0 and tb = 25200000]
  from bands have mono: "0 \<le> real_of_int (3600000 - 0) / 3600000
     \<and> real_of_int (3600000 - 0) / 3600000 \<le> real_of_int (25200000 - 0) / 3600000
     \<longrightarrow> calculateRecencyScore (Some 0) 25200000 \<le> calculateRecencyScore (Some 0) 3600000"
    by (elim conjE)
  from bands have "map (\<lambda>ms. calculateRecencyScore (Some 0) (0 + ms))
        [- 1, 0, 21600000, 21600001, 21601000, 43200000, 43200001, 43201000,
         64800000, 64800001, 64801000, 86400000, 86400001, 86401000]
       = [0, 20, 20, 15, 15, 15, 10, 10, 10, 5, 5, 5, 0, 0]"
    by (elim conjE)
  then have six: "calculateRecencyScore (Some 0) 21600000 = 20"
    and six1: "calculateRecencyScore (Some 0) 21601000 = 15"
    by simp_all
  from calculateRecencyScore_bands [where pd = None and d = 1718197200000 and now = 0
    and da = 0 and ta = 0 and db = 0 and tb = 0]
  have "map (\<lambda>ms. calculateRecencyScore (Some 1718197200000) (1718197200000 + ms))
        [- 1, 0, 21600000, 21600001, 21601000, 43200000, 43200001, 43201000,
         64800000, 64800001, 64801000, 86400000, 86400001, 86401000]
       = [0, 20, 20, 15, 15, 15, 10, 10, 10, 5, 5, 5, 0, 0]"
    by (elim conjE)
  then have future: "calculateRecencyScore (Some 1718197200000) 1718197199999 = 0"
    by simp
  from mono hyp have le: "calculateRecencyScore (Some 0) 25200000 \<le> calculateRecencyScore (Some 0) 3600000"
    by (rule mp)
  from hyp le six six1 future show ?thesis
    by (intro conjI) (simp_all only: simp_thms)
qed

subsection \<open>Caps of the sub-scores\<close>

lemma if_add_nonneg: "0 \<le> (x::int) \<Longrightarrow> 0 \<le> k \<Longrightarrow> 0 \<le> (if b then x + k else x)"
  by simp

lemma heuristic_bounds:
  "0 \<le> calculateEngagementScoreHeuristic a \<and> calculateEngagementScoreHeuristic a \<le> 25"
  unfolding calculateEngagementScoreHeuristic_def Let_def
  by (intro conjI min.boundedI if_add_nonneg add_nonneg_nonneg min.cobounded2) simp_all

lemma virality_bounds: "0 \<le> calculateViralityScore a \<and> calculateViralityScore a \<le> 20"
  unfolding calculateViralityScore_def Let_def
  by (intro conjI min.boundedI if_add_nonneg add_nonneg_nonneg min.cobounded2) simp_all

lemma seo_bounds: "0 \<le> calculateSeoScore a \<and> calculateSeoScore a \<le> 10"
  unfolding calculateSeoScore_def Let_def
  by (intro conjI min.boundedI if_add_nonneg add_nonneg_nonneg min.cobounded2) simp_all

text \<open>
  C6. For every article the heuristic engagement score is at most 25, the virality
  score at most 20 and the SEO score at most 10, however many patterns match; an
  article that matches all four virality patterns scores exactly 20.
\<close>

theorem subscore_caps:
  "calculateEngagementScoreHeuristic a \<le> 25
   \<and> calculateViralityScore a \<le> 20
   \<and> calculateSeoScore a \<le> 10
   \<and> (containsStatistics (articleText a)
        \<and> (containsQuestion (headline a) \<or> isProvocative (headline a))
        \<and> containsKeywords (articleText a) majorEntities
        \<and> testWords breakingWords (articleText a)
        \<longrightarrow> calculateViralityScore a = 20)"
proof -
  have "containsStatistics (articleText a)
        \<and> (containsQuestion (headline a) \<or> isProvocative (headline a))
        \<and> containsKeywords (articleText a) majorEntities
        \<and> testWords breakingWords (articleText a)
        \<longrightarrow> calculateViralityScore a = 20"
    by (simp add: calculateViralityScore_def Let_def)
  with heuristic_bounds [of a] virality_bounds [of a] seo_bounds [of a]
  show ?thesis by blast
qed

text \<open>The fixture headline matches all four virality patterns and scores 20.\<close>

theorem subscore_caps_witness:
  "containsStatistics (articleText breakingArticle)
   \<and> (containsQuestion (headline breakingArticle) \<or> isProvocative (headline breakingArticle))
   \<and> containsKeywords (articleText breakingArticle) majorEntities
   \<and> testWords breakingWords (articleText breakingArticle)
   \<and> calculateViralityScore breakingArticle = 20"
proof -
  have stats: "containsStatistics (articleText breakingArticle)"
    by code_simp
  have question: "containsQuestion (headline breakingArticle)"
    by code_simp
  have entity: "containsKeywords (articleText breakingArticle) majorEntities"
    by code_simp
  have breaking: "testWords breakingWords (articleText breakingArticle)"
    by code_simp
  from subscore_caps [of breakingArticle] stats question entity breaking
  show ?thesis by blast
qed

subsection \<open>Engagement score: the AI path and its fallback\<close>

lemma scoreOfContent_bounds: "0 \<le> scoreOfContent c \<and> scoreOfContent c \<le> 25"
  by (simp add: scoreOfContent_def split: option.split)

text \<open>
  C7 as stated fails: for a reply that is not a number the source returns the constant
  12, and for a number outside \<open>[0, 25]\<close> the nearest bound, not the heuristic score.
  The neutral fixture has heuristic score 0; the reply \<open>n/a\<close> gives 12 and the reply
  \<open>40\<close> gives 25.
\<close>

theorem calculateEngagementScore_counterexample:
  "calculateEngagementScoreHeuristic neutralArticle = 0
   \<and> calculateEngagementScore OpenAI (Content (Some ''n/a'')) neutralArticle = Inr 12
   \<and> calculateEngagementScore OpenAI (Content (Some ''40'')) neutralArticle = Inr 25"
proof -
  have heuristic: "calculateEngagementScoreHeuristic neutralArticle = 0"
    by code_simp
  have unparsable: "scoreOfContent (Some ''n/a'') = 12"
    by code_simp
  have large: "scoreOfContent (Some ''40'') = 25"
    by code_simp
  from heuristic unparsable large show ?thesis
    by (simp add: calculateEngagementScore_def calculateEngagementScoreAI_def)
qed

text \<open>
  C7, amended. \<open>calculateEngagementScore\<close> never raises and its value lies in
  \<open>[0, 25]\<close>, for every article, provider setting and behaviour of the service. When
  the request fails the value is the heuristic score of the same article. When an AI
  provider is configured and the service answers, the value is 12 for an answer that
  is not a number, and otherwise the parsed integer clamped to \<open>[0, 25]\<close>.
\<close>

theorem calculateEngagementScore_total:
  "(\<exists>v. calculateEngagementScore provider reply a = Inr v \<and> 0 \<le> v \<and> v \<le> 25)
   \<and> calculateEngagementScore provider (RequestFailed m) a
       = Inr (calculateEngagementScoreHeuristic a)
   \<and> (provider = OpenAI \<or> provider = Anthropic \<longrightarrow>
        calculateEngagementScore provider (Content c) a
          = Inr (case (case c of None \<Rightarrow> None | Some t \<Rightarrow> parseInt (trim t)) of
                   None \<Rightarrow> 12
                 | Some n \<Rightarrow> min (max n 0) 25))"
proof -
  have total: "\<exists>v. calculateEngagementScore provider reply a = Inr v \<and> 0 \<le> v \<and> v \<le> 25"
    using heuristic_bounds [of a] scoreOfContent_bounds
    by (cases provider; cases reply)
       (simp_all add: calculateEngagementScore_def calculateEngagementScoreAI_def)
  have failed: "calculateEngagementScore provider (RequestFailed m) a
       = Inr (calculateEngagementScoreHeuristic a)"
    by (cases provider)
       (simp_all add: calculateEngagementScore_def calculateEngagementScoreAI_def)
  have answered: "provider = OpenAI \<or> provider = Anthropic \<longrightarrow>
        calculateEngagementScore provider (Content c) a
          = Inr (case (case c of None \<Rightarrow> None | Some t \<Rightarrow> parseInt (trim t)) of
                   None \<Rightarrow> 12
                 | Some n \<Rightarrow> min (max n 0) 25)"
    by (auto simp: calculateEngagementScore_def calculateEngagementScoreAI_def
                   scoreOfContent_def)
  from total failed answered show ?thesis by blast
qed

text \<open>With Anthropic configured, an answer of \<open>-3\<close> is clamped to 0.\<close>

theorem calculateEngagementScore_total_witness:
  "(Anthropic = OpenAI \<or> Anthropic = Anthropic)
   \<and> calculateEngagementScore Anthropic (Content (Some '' -3 '')) neutralArticle = Inr 0
   \<and> calculateEngagementScore Anthropic (RequestFailed ''Anthropic API error'') breakingArticle
       = Inr (calculateEngagementScoreHeuristic breakingArticle)"
proof -
  have parse: "parseInt (trim '' -3 '') = Some (- 3)"
    by code_simp
  from calculateEngagementScore_total
         [of Anthropic "Content (Some '' -3 '')" neutralArticle "''Anthropic API error''"
             "Some '' -3 ''"]
       calculateEngagementScore_total
         [of Anthropic "Content None" breakingArticle "''Anthropic API error''" None]
       parse
  show ?thesis by simp
qed

subsection \<open>Effective tweet length\<close>

lemma foldl_tweet:
  "foldl (\<lambda>len u. len - int (length u) + k) n us
     = n - sum_list (map (\<lambda>u. int (length u)) us) + k * int (length us)"
  by (induction us arbitrary: n) (simp_all add: algebra_simps)

lemma urlAt_not_h: "CHR ''h'' \<noteq> c \<Longrightarrow> urlAt (c # cs) = None"
  by (auto simp: urlAt_def)

lemma extractUrls_skip: "CHR ''h'' \<notin> set p \<Longrightarrow> extractUrls (p @ s) = extractUrls s"
  by (induction p) (simp_all add: urlAt_not_h)

lemma takeWhile_body:
  "\<forall>c\<in>set b. \<not> isSpace c \<Longrightarrow> s = [] \<or> isSpace (hd s)
   \<Longrightarrow> takeWhile (\<lambda>c. \<not> isSpace c) (b @ s) = b"
  by (cases s) (simp_all add: takeWhile_append2)

lemma extractUrls_https:
  assumes "b \<noteq> []" "\<forall>c\<in>set b. \<not> isSpace c" "s = [] \<or> isSpace (hd s)"
  shows "extractUrls (''https://'' @ b @ s) = (''https://'' @ b) # extractUrls s"
proof -
  have "urlAt (''https://'' @ b @ s) = Some (''https://'' @ b)"
    using assms takeWhile_body [of b s] by (simp add: urlAt_def)
  then show ?thesis by simp
qed

lemma extractUrls_http:
  assumes "b \<noteq> []" "\<forall>c\<in>set b. \<not> isSpace c" "s = [] \<or> isSpace (hd s)"
  shows "extractUrls (''http://'' @ b @ s) = (''http://'' @ b) # extractUrls s"
proof -
  have "urlAt (''http://'' @ b @ s) = Some (''http://'' @ b)"
    using assms takeWhile_body [of b s] by (simp add: urlAt_def)
  then show ?thesis by simp
qed

lemma two_urls:
  assumes b: "b1 \<noteq> []" "b2 \<noteq> []" and ns: "\<forall>c\<in>set (b1 @ b2). \<not> isSpace c"
    and h: "CHR ''h'' \<notin> set (p @ q)"
  shows "calculateTweetLength (p @ ''https://'' @ b1 @ '' '' @ q @ ''http://'' @ b2)
           = int (length p) + 23 + 1 + int (length q) + 23"
proof -
  have sp: "isSpace (CHR '' '')" by (simp add: isSpace_def)
  have u2: "extractUrls (''http://'' @ b2) = [''http://'' @ b2]"
    using extractUrls_http [of b2 "[]"] b ns by simp
  have mid: "extractUrls ('' '' @ q @ ''http://'' @ b2) = [''http://'' @ b2]"
    using extractUrls_skip [of "'' '' @ q" "''http://'' @ b2"] h u2 by simp
  have u1: "extractUrls (''https://'' @ b1 @ ('' '' @ q @ ''http://'' @ b2))
      = (''https://'' @ b1) # [''http://'' @ b2]"
    using extractUrls_https [of b1 "'' '' @ q @ ''http://'' @ b2"] b ns sp mid by simp
  have all: "extractUrls (p @ ''https://'' @ b1 @ '' '' @ q @ ''http://'' @ b2)
      = [''https://'' @ b1, ''http://'' @ b2]"
    using extractUrls_skip [of p "''https://'' @ b1 @ '' '' @ q @ ''http://'' @ b2"] h u1
    by simp
  show ?thesis
    unfolding calculateTweetLength_def all by (simp add: TWITTER_URL_LENGTH_def)
qed

text \<open>
  C8. For every text the effective length is the length of the text, minus the length
  of each embedded http(s) URL, plus 23 for each of them. The fixture text with one URL
  has length 16 + 23 = 39, the fixture with two URLs 8 + 23 + 9 + 23 = 63, and in
  any text of the shape \<open>p https://b1 q http://b2\<close> each URL counts 23 whatever
  the lengths of \<open>b1\<close> and \<open>b2\<close>.
\<close>

theorem calculateTweetLength_urls:
  "calculateTweetLength text
     = int (length text) - sum_list (map (\<lambda>u. int (length u)) (extractUrls text))
       + 23 * int (length (extractUrls text))
   \<and> calculateTweetLength ''Check this out: https://example.com/very/long/url/path'' = 39
   \<and> calculateTweetLength ''Link 1: https://example.com Link 2: https://another.com'' = 63
   \<and> (b1 \<noteq> [] \<and> b2 \<noteq> [] \<and> (\<forall>c\<in>set (b1 @ b2). \<not> isSpace c)
        \<and> CHR ''h'' \<notin> set (p @ q)
        \<longrightarrow> calculateTweetLength (p @ ''https://'' @ b1 @ '' '' @ q @ ''http://'' @ b2)
            = int (length p) + 23 + 1 + int (length q) + 23)"
proof -
  have formula: "calculateTweetLength text
     = int (length text) - sum_list (map (\<lambda>u. int (length u)) (extractUrls text))
       + 23 * int (length (extractUrls text))"
    by (simp add: calculateTweetLength_def foldl_tweet TWITTER_URL_LENGTH_def)
  have one: "calculateTweetLength ''Check this out: https://example.com/very/long/url/path'' = 39"
    by code_simp
  have two: "calculateTweetLength ''Link 1: https://example.com Link 2: https://another.com'' = 63"
    by code_simp
  from formula one two two_urls [of b1 b2 p q] show ?thesis by blast
qed

text \<open>Two URLs of different lengths and schemes: 8 + 23 + 1 + 8 + 23 = 63.\<close>

theorem calculateTweetLength_urls_witness:
  "''example.com/a/much/longer/path'' \<noteq> [] \<and> ''t.co'' \<noteq> []
   \<and> list_all (\<lambda>c. \<not> isSpace c) (''example.com/a/much/longer/path'' @ ''t.co'')
   \<and> CHR ''h'' \<notin> set (''Link 1: '' @ ''Link 2: '')
   \<and> calculateTweetLength
        (''Link 1: '' @ ''https://'' @ ''example.com/a/much/longer/path'' @ '' ''
           @ ''Link 2: '' @ ''http://'' @ ''t.co'') = 63"
proof -
  have ns: "\<forall>c\<in>set (''example.com/a/much/longer/path'' @ ''t.co''). \<not> isSpace c"
    by (simp add: isSpace_def)
  have h: "CHR ''h'' \<notin> set (''Link 1: '' @ ''Link 2: '')"
    by simp
  have ne: "''example.com/a/much/longer/path'' \<noteq> []" "''t.co'' \<noteq> []"
    by simp_all
  have len: "int (length ''Link 1: '') + 23 + 1 + int (length ''Link 2: '') + 23 = 63"
    by simp
  from calculateTweetLength_urls
         [of "[]" "''example.com/a/much/longer/path''" "''t.co''" "''Link 1: ''" "''Link 2: ''"]
       ns h ne
  have "calculateTweetLength
        (''Link 1: '' @ ''https://'' @ ''example.com/a/much/longer/path'' @ '' ''
           @ ''Link 2: '' @ ''http://'' @ ''t.co'')
      = int (length ''Link 1: '') + 23 + 1 + int (length ''Link 2: '') + 23"
    by blast
  with len ns h ne show ?thesis
    unfolding list_all_iff by presburger
qed

subsection \<open>Daylight-saving boundaries\<close>

lemma dstStartDay_second_sunday:
  "0 \<le> w \<Longrightarrow> w \<le> 6 \<Longrightarrow>
   8 \<le> dstStartDay w \<and> dstStartDay w \<le> 14 \<and> (w + (dstStartDay w - 1)) mod 7 = 0"
  unfolding dstStartDay_def by presburger

lemma dstStartDay_schedule_late: "dstStartDay_schedule w = dstStartDay w + 7"
  by (simp add: dstStartDay_schedule_def dstStartDay_def)

lemma isEasternDST_start:
  "isEasternDST date \<Longrightarrow>
   Date_UTC (getUTCFullYear date) 2 (dstStartDay (getUTCDay (Date_UTC (getUTCFullYear date) 2 1 0))) 7
     \<le> date"
  by (simp add: isEasternDST_def dstStartDay_def Let_def)

lemma isEasternDST_schedule_start:
  "isEasternDST_schedule date \<Longrightarrow>
   Date_UTC (getUTCFullYear date) 2
     (dstStartDay_schedule (getUTCDay (Date_UTC (getUTCFullYear date) 2 1 0))) 0 \<le> date"
  by (simp add: isEasternDST_schedule_def dstStartDay_schedule_def Let_def)


text \<open>
  C9. Daylight-saving time is meant to run from the second Sunday of March to the
  first Sunday of November, in both implementations. The posting-schedule module
  starts it on day \<open>8 + (7 - d) mod 7 + 7\<close> of March, one week after the second Sunday
  (\<open>dstStartDay_schedule_late\<close>). In 2024 March 1 is a Friday and the second Sunday is
  March 10: at noon UTC of March 12 the implementation of \<open>date-utils.js\<close> reports
  daylight-saving time and the one of the posting-schedule module does not.
\<close>

theorem isEasternDST_schedule_third_sunday:
  "civilFromDays (marchNoon div msPerDay) = (2024, 3, 12)
   \<and> getUTCDay (Date_UTC 2024 2 1 0) = 5
   \<and> dstStartDay 5 = 10
   \<and> dstStartDay_schedule 5 = 17
   \<and> isEasternDST marchNoon
   \<and> \<not> isEasternDST_schedule marchNoon"
  by code_simp



subsection \<open>Assignment of articles to the slots\<close>

lemma showNat_digit: "n < 10 \<Longrightarrow> showNat n = [''0123456789'' ! n]"
  by (subst showNat.simps) simp

lemma queue_initialize:
  "queue (initializeDailySchedule now q newScheduler)
     = map (\<lambda>slot. (getTodayString now @ ''-'' @ showNat (postNumber slot),
                     postOfSlot now q slot)) POSTING_SCHEDULE"
  by (simp add: initializeDailySchedule_def newScheduler_def POSTING_SCHEDULE_def showNat_digit)

lemma slots_wellformed:
  "list_all (\<lambda>slot. 1 \<le> categoryRank slot \<and> categoryId slot \<in> set CATEGORY_IDS) POSTING_SCHEDULE"
  by (simp add: POSTING_SCHEDULE_def CATEGORY_IDS_def)

lemma slot_numbers: "map postNumber POSTING_SCHEDULE = [1, 2, 3, 4, 5, 6, 7, 8, 9]"
  by (simp add: POSTING_SCHEDULE_def)

lemma assignPost_postOfSlot:
  fixes arts now q slot
  defines "post \<equiv> assignPost arts (postOfSlot now q slot)"
  defines "cas \<equiv> articlesOfCategory arts (categoryId slot)"
  assumes "1 \<le> categoryRank slot"
  shows "p_postNumber post = postNumber slot"
    and "p_categoryId post = categoryId slot"
    and "p_categoryRank post = categoryRank slot"
    and "categoryRank slot \<le> length cas \<Longrightarrow>
           p_status post = Ready \<and> p_article post = Some (cas ! (categoryRank slot - 1))"
    and "\<not> categoryRank slot \<le> length cas \<Longrightarrow>
           p_status post = NoArticle \<and> p_article post = None"
  using assms by (simp_all add: assignPost_def postOfSlot_def Let_def)

lemma ranked_category:
  assumes ranked: "rankedInOrder arts" and c: "c \<in> set CATEGORY_IDS" and r: "1 \<le> r"
  defines "cas \<equiv> articlesOfCategory arts c"
  shows "list_ex (\<lambda>a. category a = c \<and> a_categoryRank a = Some r) arts \<longleftrightarrow> r \<le> length cas"
    and "r \<le> length cas \<Longrightarrow>
           cas ! (r - 1) \<in> set arts \<and> category (cas ! (r - 1)) = c
           \<and> a_categoryRank (cas ! (r - 1)) = Some r"
proof -
  have ranks: "map a_categoryRank cas = map Some [1..<Suc (length cas)]"
    using ranked c unfolding rankedInOrder_def list_all_iff cas_def by blast
  have nth: "a_categoryRank (cas ! i) = Some (Suc i)" if "i < length cas" for i
  proof -
    have "map a_categoryRank cas ! i = map Some [1..<Suc (length cas)] ! i"
      using ranks by simp
    with that show ?thesis by (simp del: upt_Suc)
  qed
  have "list_ex (\<lambda>a. category a = c \<and> a_categoryRank a = Some r) arts
        \<longleftrightarrow> (\<exists>a\<in>set cas. a_categoryRank a = Some r)"
    by (auto simp: list_ex_iff cas_def articlesOfCategory_def)
  also have "\<dots> \<longleftrightarrow> Some r \<in> set (map a_categoryRank cas)"
    by force
  also have "\<dots> \<longleftrightarrow> r \<le> length cas"
    using r unfolding ranks by auto
  finally show "list_ex (\<lambda>a. category a = c \<and> a_categoryRank a = Some r) arts \<longleftrightarrow> r \<le> length cas" .
  assume le: "r \<le> length cas"
  with r have i: "r - 1 < length cas" by simp
  then have mem: "cas ! (r - 1) \<in> set cas" by simp
  then have "cas ! (r - 1) \<in> set arts \<and> category (cas ! (r - 1)) = c"
    by (simp add: cas_def articlesOfCategory_def)
  moreover have "a_categoryRank (cas ! (r - 1)) = Some r"
    using nth [OF i] r by simp
  ultimately show "cas ! (r - 1) \<in> set arts \<and> category (cas ! (r - 1)) = c
           \<and> a_categoryRank (cas ! (r - 1)) = Some r" by blast
qed

lemma slot_in_schedule:
  "slot \<in> set POSTING_SCHEDULE \<Longrightarrow> 1 \<le> categoryRank slot \<and> categoryId slot \<in> set CATEGORY_IDS"
  using slots_wellformed unfolding list_all_iff by blast

lemma position_slot:
  fixes arts now q
  assumes sl: "slot \<in> set POSTING_SCHEDULE"
  defines "post \<equiv> assignPost arts (postOfSlot now q slot)"
  shows "if p_categoryRank post \<le> length (articlesOfCategory arts (p_categoryId post))
          then p_status post = Ready
               \<and> p_article post
                   = Some (articlesOfCategory arts (p_categoryId post) ! (p_categoryRank post - 1))
          else p_status post = NoArticle \<and> p_article post = None"
proof -
  from slot_in_schedule [OF sl] have rk: "1 \<le> categoryRank slot" by simp
  note ap = assignPost_postOfSlot [OF rk, of arts now q]
  show ?thesis
  proof (cases "categoryRank slot \<le> length (articlesOfCategory arts (categoryId slot))")
    case True
    with ap(4) show ?thesis unfolding post_def ap(2,3) by simp
  next
    case False
    with ap(5) show ?thesis unfolding post_def ap(2,3) by simp
  qed
qed

lemma ranked_slot:
  fixes arts now q
  assumes sl: "slot \<in> set POSTING_SCHEDULE" and r: "rankedInOrder arts"
  defines "post \<equiv> assignPost arts (postOfSlot now q slot)"
  shows "if list_ex (\<lambda>a. category a = p_categoryId post
                           \<and> a_categoryRank a = Some (p_categoryRank post)) arts
            then p_status post = Ready
                 \<and> list_ex (\<lambda>a. p_article post = Some a \<and> category a = p_categoryId post
                                \<and> a_categoryRank a = Some (p_categoryRank post)) arts
            else p_status post = NoArticle \<and> p_article post = None"
proof -
  let ?cas = "articlesOfCategory arts (categoryId slot)"
  let ?a = "?cas ! (categoryRank slot - 1)"
  from slot_in_schedule [OF sl]
  have rk: "1 \<le> categoryRank slot" and cat: "categoryId slot \<in> set CATEGORY_IDS"
    by simp_all
  note ap = assignPost_postOfSlot [OF rk, of arts now q]
  note rc = ranked_category [OF r cat rk]
  show ?thesis
  proof (cases "categoryRank slot \<le> length ?cas")
    case True
    with rc(2) have a: "?a \<in> set arts" "category ?a = categoryId slot"
        "a_categoryRank ?a = Some (categoryRank slot)"
      by simp_all
    from True ap(4) have st: "p_status post = Ready" and art: "p_article post = Some ?a"
      unfolding post_def by simp_all
    have ex: "list_ex (\<lambda>a. category a = categoryId slot
                           \<and> a_categoryRank a = Some (categoryRank slot)) arts"
      using rc(1) True by simp
    have "list_ex (\<lambda>b. p_article post = Some b \<and> category b = categoryId slot
                                \<and> a_categoryRank b = Some (categoryRank slot)) arts"
      unfolding list_ex_iff art using a by blast
    with st ex show ?thesis unfolding post_def ap(2,3) by simp
  next
    case False
    with rc(1) have "\<not> list_ex (\<lambda>a. category a = categoryId slot
                           \<and> a_categoryRank a = Some (categoryRank slot)) arts"
      by simp
    with False ap(5) show ?thesis unfolding post_def ap(2,3) by simp
  qed
qed

lemma list_all_map_slots:
  "(\<And>slot. slot \<in> set POSTING_SCHEDULE \<Longrightarrow> P (F slot)) \<Longrightarrow> list_all P (map F POSTING_SCHEDULE)"
  by (simp add: list_all_iff)


text \<open>
  C3 as stated fails: the slot of rank \<open>r\<close> receives the \<open>r\<close>-th article of its category
  in the order of the input, whatever rank that article carries. With the article of
  rank 2 listed before the article of rank 1, post 1 (rank 1) is bound to the article of
  rank 2 and post 4 (rank 2) to the article of rank 1.
\<close>

theorem assignArticlesToSchedule_counterexample:
  "map_sum id slate
     (assignArticlesToSchedule
        [rankedArticle ''ai-providers'' 2 70, rankedArticle ''ai-providers'' 1 90]
        (initializeDailySchedule juneMorning 1 newScheduler))
   = Inr [(1, 1, Ready, Some 2), (2, 1, NoArticle, None), (3, 1, NoArticle, None),
          (4, 2, Ready, Some 1), (5, 2, NoArticle, None), (6, 2, NoArticle, None),
          (7, 3, NoArticle, None), (8, 3, NoArticle, None), (9, 3, NoArticle, None)]"
  by code_simp

text \<open>
  C3, amended. Let no article carry a category that names an inherited object
  property. After \<open>initializeDailySchedule\<close> and \<open>assignArticlesToSchedule\<close> there are the
  nine posts 1..9; the post of a slot of rank \<open>r\<close> is ready and bound to the \<open>r\<close>-th
  article of the slot's category in input order when the input has that many articles
  of the category, and has no article otherwise. When the input lists the articles of
  each category in the order of their ranks 1, 2, ..., every post is ready and bound to
  an article whose category and rank equal the slot's if the input holds such an
  article, and has no article otherwise.
\<close>

theorem assignArticlesToSchedule_slots:
  assumes g: "groupable arts"
  shows "\<exists>s'. assignArticlesToSchedule arts (initializeDailySchedule now q newScheduler) = Inr s'
     \<and> map (\<lambda>(k, post). p_postNumber post) (queue s') = [1, 2, 3, 4, 5, 6, 7, 8, 9]
     \<and> list_all (\<lambda>(k, post).
          if p_categoryRank post \<le> length (articlesOfCategory arts (p_categoryId post))
          then p_status post = Ready
               \<and> p_article post
                   = Some (articlesOfCategory arts (p_categoryId post) ! (p_categoryRank post - 1))
          else p_status post = NoArticle \<and> p_article post = None) (queue s')
     \<and> (rankedInOrder arts \<longrightarrow>
          list_all (\<lambda>(k, post).
            if list_ex (\<lambda>a. category a = p_categoryId post
                           \<and> a_categoryRank a = Some (p_categoryRank post)) arts
            then p_status post = Ready
                 \<and> list_ex (\<lambda>a. p_article post = Some a \<and> category a = p_categoryId post
                                \<and> a_categoryRank a = Some (p_categoryRank post)) arts
            else p_status post = NoArticle \<and> p_article post = None) (queue s'))"
proof -
  let ?s = "initializeDailySchedule now q newScheduler"
  let ?F = "\<lambda>slot. (getTodayString now @ ''-'' @ showNat (postNumber slot),
                     assignPost arts (postOfSlot now q slot))"
  let ?s' = "?s\<lparr>queue := map (\<lambda>(k, post). (k, assignPost arts post)) (queue ?s)\<rparr>"
  have run: "assignArticlesToSchedule arts ?s = Inr ?s'"
    using g by (simp add: assignArticlesToSchedule_def)
  have q': "queue ?s' = map ?F POSTING_SCHEDULE"
    by (simp add: queue_initialize)
  have numbers: "map (\<lambda>(k, post). p_postNumber post) (queue ?s') = [1, 2, 3, 4, 5, 6, 7, 8, 9]"
  proof -
    have "map (\<lambda>(k, post). p_postNumber post) (map ?F POSTING_SCHEDULE)
            = map postNumber POSTING_SCHEDULE"
      using slot_in_schedule by (simp add: assignPost_postOfSlot(1))
    then show ?thesis unfolding q' slot_numbers .
  qed
  have position: "list_all (\<lambda>(k, post).
          if p_categoryRank post \<le> length (articlesOfCategory arts (p_categoryId post))
          then p_status post = Ready
               \<and> p_article post
                   = Some (articlesOfCategory arts (p_categoryId post) ! (p_categoryRank post - 1))
          else p_status post = NoArticle \<and> p_article post = None) (queue ?s')"
    unfolding q'
  proof (rule list_all_map_slots)
    fix slot assume "slot \<in> set POSTING_SCHEDULE"
    from position_slot [OF this, of arts now q]
    show "case ?F slot of (k, post) \<Rightarrow>
          if p_categoryRank post \<le> length (articlesOfCategory arts (p_categoryId post))
          then p_status post = Ready
               \<and> p_article post
                   = Some (articlesOfCategory arts (p_categoryId post) ! (p_categoryRank post - 1))
          else p_status post = NoArticle \<and> p_article post = None"
      by simp
  qed
  have ranked: "list_all (\<lambda>(k, post).
            if list_ex (\<lambda>a. category a = p_categoryId post
                           \<and> a_categoryRank a = Some (p_categoryRank post)) arts
            then p_status post = Ready
                 \<and> list_ex (\<lambda>a. p_article post = Some a \<and> category a = p_categoryId post
                                \<and> a_categoryRank a = Some (p_categoryRank post)) arts
            else p_status post = NoArticle \<and> p_article post = None) (queue ?s')"
    if r: "rankedInOrder arts"
    unfolding q'
  proof (rule list_all_map_slots)
    fix slot assume "slot \<in> set POSTING_SCHEDULE"
    from ranked_slot [OF this r, of now q]
    show "case ?F slot of (k, post) \<Rightarrow>
            if list_ex (\<lambda>a. category a = p_categoryId post
                           \<and> a_categoryRank a = Some (p_categoryRank post)) arts
            then p_status post = Ready
                 \<and> list_ex (\<lambda>a. p_article post = Some a \<and> category a = p_categoryId post
                                \<and> a_categoryRank a = Some (p_categoryRank post)) arts
            else p_status post = NoArticle \<and> p_article post = None"
      by simp
  qed
  show ?thesis
    by (intro exI [of _ ?s'] conjI impI) (fact run, fact numbers, fact position, erule ranked)
qed

theorem assignArticlesToSchedule_slots_witness:
  "groupable [rankedArticle ''ai-safety'' 1 88, rankedArticle ''ai-safety'' 2 81]
   \<and> rankedInOrder [rankedArticle ''ai-safety'' 1 88, rankedArticle ''ai-safety'' 2 81]
   \<and> (\<exists>s'. assignArticlesToSchedule
              [rankedArticle ''ai-safety'' 1 88, rankedArticle ''ai-safety'' 2 81]
              (initializeDailySchedule juneMorning 1 newScheduler) = Inr s'
          \<and> map (\<lambda>(k, post). p_postNumber post) (queue s') = [1, 2, 3, 4, 5, 6, 7, 8, 9]
          \<and> slate s'
              = [(1, 1, NoArticle, None), (2, 1, NoArticle, None), (3, 1, Ready, Some 1),
                 (4, 2, NoArticle, None), (5, 2, NoArticle, None), (6, 2, Ready, Some 2),
                 (7, 3, NoArticle, None), (8, 3, NoArticle, None), (9, 3, NoArticle, None)])"
proof -
  let ?arts = "[rankedArticle ''ai-safety'' 1 88, rankedArticle ''ai-safety'' 2 81]"
  let ?run = "assignArticlesToSchedule ?arts (initializeDailySchedule juneMorning 1 newScheduler)"
  let ?slate = "[(1, 1, NoArticle, None), (2, 1, NoArticle, None), (3, 1, Ready, Some 1),
                 (4, 2, NoArticle, None), (5, 2, NoArticle, None), (6, 2, Ready, Some 2),
                 (7, 3, NoArticle, None), (8, 3, NoArticle, None), (9, 3, NoArticle, None)]"
  have g: "groupable ?arts"
    by code_simp
  have r: "rankedInOrder ?arts"
    by code_simp
  have ev: "map_sum id slate ?run = Inr ?slate"
    by code_simp
  have "\<exists>s'. ?run = Inr s'
          \<and> map (\<lambda>(k, post). p_postNumber post) (queue s') = [1, 2, 3, 4, 5, 6, 7, 8, 9]"
    using assignArticlesToSchedule_slots [OF g, of juneMorning 1]
    by (elim exE conjE) (intro exI conjI; assumption)
  then obtain s' where s': "?run = Inr s'"
    and n: "map (\<lambda>(k, post). p_postNumber post) (queue s') = [1, 2, 3, 4, 5, 6, 7, 8, 9]"
    by (elim exE conjE)
  from ev have sl: "slate s' = ?slate"
    unfolding s' by simp
  show ?thesis
    by (intro conjI exI [of _ s']) (fact g, fact r, fact s', fact n, fact sl)
qed

subsection \<open>Selection of the top three per category\<close>


lemma assignRanks_length [simp]: "length (assignRanks i xs) = length xs"
  by (induction xs arbitrary: i) simp_all

lemma assignRanks_core: "map articleCore (assignRanks i xs) = map articleCore xs"
  by (induction xs arbitrary: i) (simp_all add: articleCore_def)

lemma assignRanks_ranks: "map a_categoryRank (assignRanks i xs) = map Some [Suc i..<Suc i + length xs]"
  by (induction xs arbitrary: i) (simp_all add: upt_rec)

lemma updateFirst_map: "(\<And>x. g (f x) = g x) \<Longrightarrow> map g (updateFirst p f xs) = map g xs"
  by (induction xs) simp_all

lemma assignSlot_map:
  "map (\<lambda>a. (articleCore a, a_categoryRank a)) (assignSlot q slot xs)
     = map (\<lambda>a. (articleCore a, a_categoryRank a)) xs"
  unfolding assignSlot_def by (rule updateFirst_map) (simp add: articleCore_def)

lemma foldl_assignSlot_map:
  "map (\<lambda>a. (articleCore a, a_categoryRank a)) (foldl (\<lambda>as slot. assignSlot q slot as) xs slots)
     = map (\<lambda>a. (articleCore a, a_categoryRank a)) xs"
  by (induction slots arbitrary: xs) (simp_all add: assignSlot_map)

lemma assignPostingSlots_map:
  "map (\<lambda>a. (articleCore a, a_categoryRank a)) (assignPostingSlots q xs)
     = map (\<lambda>a. (articleCore a, a_categoryRank a)) xs"
  by (simp add: assignPostingSlots_def foldl_assignSlot_map)

lemma category_core: "category a = fst (snd (snd (snd (snd (snd (articleCore a))))))"
  by (simp add: articleCore_def)

lemma score_core: "score a = snd (snd (snd (snd (snd (snd (articleCore a))))))"
  by (simp add: articleCore_def)

text \<open>Filtering by a property of the preserved fields commutes with a field-preserving rewrite.\<close>

lemma filter_same_view:
  assumes "map v ys = map v zs"
  shows "map v (filter (\<lambda>a. P (v a)) ys) = map v (filter (\<lambda>a. P (v a)) zs)"
proof -
  have "map v (filter (\<lambda>a. P (v a)) ys) = filter P (map v ys)"
    by (simp add: filter_map comp_def)
  also have "\<dots> = filter P (map v zs)" using assms by simp
  also have "\<dots> = map v (filter (\<lambda>a. P (v a)) zs)"
    by (simp add: filter_map comp_def)
  finally show ?thesis .
qed

lemma selectForCategory_category:
  "a \<in> set (selectForCategory (articlesOfCategory xs c)) \<Longrightarrow> category a = c"
proof -
  assume a: "a \<in> set (selectForCategory (articlesOfCategory xs c))"
  have "set (map articleCore (selectForCategory (articlesOfCategory xs c)))
          \<subseteq> articleCore ` set (articlesOfCategory xs c)"
    unfolding selectForCategory_def Let_def assignRanks_core
    by (auto dest: in_set_takeD)
  with a obtain b where "b \<in> set (articlesOfCategory xs c)" "articleCore a = articleCore b"
    by auto
  then show ?thesis by (simp add: category_core articlesOfCategory_def)
qed

lemma filter_select_same:
  "filter (\<lambda>a. category a = c) (selectForCategory (articlesOfCategory xs c))
     = selectForCategory (articlesOfCategory xs c)"
  by (rule filter_True) (simp add: selectForCategory_category)

lemma filter_select_other:
  "c' \<noteq> c \<Longrightarrow> filter (\<lambda>a. category a = c) (selectForCategory (articlesOfCategory xs c')) = []"
  by (auto simp: filter_empty_conv dest: selectForCategory_category)

lemma filter_concat_categories:
  assumes "c \<in> set CATEGORY_IDS"
  shows "articlesOfCategory
           (concat (map (\<lambda>c'. selectForCategory (articlesOfCategory xs c')) CATEGORY_IDS)) c
         = selectForCategory (articlesOfCategory xs c)"
  using assms
  unfolding articlesOfCategory_def [of "concat _"] CATEGORY_IDS_def
  by (auto simp: filter_select_same filter_select_other)

lemma sorted_desc_rest:
  assumes "sorted_wrt (\<lambda>a b. score a \<ge> score b) xs"
  shows "list_all (\<lambda>b. list_all (\<lambda>a. score b \<le> score a) (take n xs)) (drop n xs)"
proof -
  have "xs = take n xs @ drop n xs" by simp
  with assms have "sorted_wrt (\<lambda>a b. score a \<ge> score b) (take n xs @ drop n xs)" by simp
  then have "\<forall>a\<in>set (take n xs). \<forall>b\<in>set (drop n xs). score a \<ge> score b"
    unfolding sorted_wrt_append by blast
  then show ?thesis unfolding list_all_iff by blast
qed

lemma sorted_desc_pool:
  assumes "sorted_wrt (\<lambda>a b. score a \<ge> score b) xs"
  shows "sorted_wrt (\<lambda>a b. score a \<ge> score b) (articlesOfCategory xs c)"
    and "sorted_wrt (\<lambda>a b. score a \<ge> score b)
           (filter (\<lambda>a. score a \<ge> 60) (articlesOfCategory xs c))"
  using assms by (simp_all add: articlesOfCategory_def sorted_wrt_filter)

lemma core_to_score:
  assumes "map articleCore ys = map articleCore zs"
  shows "map score ys = map score zs"
proof -
  have "map score ys = map (\<lambda>t. snd (snd (snd (snd (snd (snd t)))))) (map articleCore ys)"
    by (simp add: score_core comp_def)
  also have "\<dots> = map (\<lambda>t. snd (snd (snd (snd (snd (snd t)))))) (map articleCore zs)"
    using assms by simp
  also have "\<dots> = map score zs"
    by (simp add: score_core comp_def)
  finally show ?thesis .
qed

lemma selected_view:
  assumes c: "c \<in> set CATEGORY_IDS"
  shows "map (\<lambda>a. (articleCore a, a_categoryRank a))
           (articlesOfCategory
              (assignPostingSlots q
                 (concat (map (\<lambda>c'. selectForCategory (articlesOfCategory xs c')) CATEGORY_IDS))) c)
         = map (\<lambda>a. (articleCore a, a_categoryRank a))
             (selectForCategory (articlesOfCategory xs c))"
proof -
  let ?v = "\<lambda>a. (articleCore a, a_categoryRank a)"
  let ?zs = "concat (map (\<lambda>c'. selectForCategory (articlesOfCategory xs c')) CATEGORY_IDS)"
  let ?P = "\<lambda>t. fst (snd (snd (snd (snd (snd (fst t)))))) = c"
  have cat: "(category a = c) = ?P (?v a)" for a
    by (simp add: category_core)
  have "map ?v (filter (\<lambda>a. ?P (?v a)) (assignPostingSlots q ?zs))
          = map ?v (filter (\<lambda>a. ?P (?v a)) ?zs)"
    by (rule filter_same_view) (rule assignPostingSlots_map)
  then have "map ?v (articlesOfCategory (assignPostingSlots q ?zs) c)
          = map ?v (articlesOfCategory ?zs c)"
    unfolding articlesOfCategory_def cat .
  then show ?thesis
    unfolding filter_concat_categories [OF c] .
qed


text \<open>
  C4. Let the scored articles be sorted by descending score (and no category name an
  inherited object property), and let \<open>c\<close> be one of the three categories. Then
  \<open>selectTopArticles\<close> returns, for \<open>c\<close>, the first three of the articles of \<open>c\<close> with score
  at least 60 if there are at least three of them, and otherwise the first three (or
  all, if fewer) of the articles of \<open>c\<close>; they are in the order of the input, carry the
  ranks 1, 2, ..., are in descending order of score, and no article of the pool they
  were taken from that was left out scores more than any of them.
\<close>

theorem selectTopArticles_top3:
  assumes sorted: "sorted_wrt (\<lambda>a b. score a \<ge> score b) xs"
    and g: "groupable xs"
    and c: "c \<in> set CATEGORY_IDS"
  shows "\<exists>ys. selectTopArticles q xs = Inr ys
     \<and> map articleCore (articlesOfCategory ys c)
         = map articleCore
             (if 3 \<le> length (filter (\<lambda>a. score a \<ge> 60) (articlesOfCategory xs c))
              then take 3 (filter (\<lambda>a. score a \<ge> 60) (articlesOfCategory xs c))
              else take 3 (articlesOfCategory xs c))
     \<and> map a_categoryRank (articlesOfCategory ys c)
         = map Some [1..<Suc (length (articlesOfCategory ys c))]
     \<and> sorted_wrt (\<lambda>a b. score a \<ge> score b) (articlesOfCategory ys c)
     \<and> list_all (\<lambda>b. list_all (\<lambda>a. score b \<le> score a) (articlesOfCategory ys c))
         (drop 3 (if 3 \<le> length (filter (\<lambda>a. score a \<ge> 60) (articlesOfCategory xs c))
                  then filter (\<lambda>a. score a \<ge> 60) (articlesOfCategory xs c)
                  else articlesOfCategory xs c))"
proof -
  let ?pool = "articlesOfCategory xs c"
  let ?qual = "filter (\<lambda>a. score a \<ge> 60) ?pool"
  let ?from = "if 3 \<le> length ?qual then ?qual else ?pool"
  let ?chosen = "if 3 \<le> length ?qual then take 3 ?qual else take 3 ?pool"
  let ?ys = "assignPostingSlots q
               (concat (map (\<lambda>c'. selectForCategory (articlesOfCategory xs c')) CATEGORY_IDS))"
  let ?sel = "articlesOfCategory ?ys c"
  have chosen: "?chosen = take 3 ?from" by simp
  have run: "selectTopArticles q xs = Inr ?ys"
    using g by (simp add: selectTopArticles_def)
  have select: "selectForCategory ?pool = assignRanks 0 ?chosen"
    by (simp add: selectForCategory_def MIN_SCORE_THRESHOLD_def ARTICLES_PER_CATEGORY_def)
  have view: "map (\<lambda>a. (articleCore a, a_categoryRank a)) ?sel
                = map (\<lambda>a. (articleCore a, a_categoryRank a)) (assignRanks 0 ?chosen)"
    using selected_view [OF c, of q xs] unfolding select .
  have core: "map articleCore ?sel = map articleCore ?chosen"
  proof -
    have "map articleCore ?sel = map fst (map (\<lambda>a. (articleCore a, a_categoryRank a)) ?sel)"
      by (simp add: comp_def)
    also have "\<dots> = map articleCore (assignRanks 0 ?chosen)"
      unfolding view by (simp add: comp_def)
    finally show ?thesis unfolding assignRanks_core .
  qed
  have len: "length ?sel = length ?chosen"
    using core by (rule map_eq_imp_length_eq)
  have ranks: "map a_categoryRank ?sel = map Some [1..<Suc (length ?sel)]"
  proof -
    have "map a_categoryRank ?sel = map snd (map (\<lambda>a. (articleCore a, a_categoryRank a)) ?sel)"
      by (simp add: comp_def)
    also have "\<dots> = map a_categoryRank (assignRanks 0 ?chosen)"
      unfolding view by (simp add: comp_def)
    also have "\<dots> = map Some [1..<Suc (length ?chosen)]"
      unfolding assignRanks_ranks by simp
    finally show ?thesis unfolding len .
  qed
  have scores: "map score ?sel = map score (take 3 ?from)"
    using core_to_score [OF core] unfolding chosen .
  have from_sorted: "sorted_wrt (\<lambda>a b. score a \<ge> score b) ?from"
    using sorted_desc_pool [OF sorted, of c] by simp
  have desc: "sorted_wrt (\<lambda>a b. score a \<ge> score b) ?sel"
  proof -
    have "sorted_wrt (\<lambda>a b. score a \<ge> score b) (take 3 ?from)"
      using from_sorted by (rule sorted_wrt_take)
    then have "sorted_wrt (\<ge>) (map score (take 3 ?from))"
      unfolding sorted_wrt_map .
    then have "sorted_wrt (\<ge>) (map score ?sel)"
      unfolding scores .
    then show ?thesis unfolding sorted_wrt_map .
  qed
  have top: "list_all (\<lambda>b. list_all (\<lambda>a. score b \<le> score a) ?sel) (drop 3 ?from)"
  proof -
    have same: "list_all (\<lambda>a. score b \<le> score a) ?sel
                  = list_all (\<lambda>a. score b \<le> score a) (take 3 ?from)" for b
    proof -
      have "list_all (\<lambda>a. score b \<le> score a) ?sel = list_all (\<lambda>s. score b \<le> s) (map score ?sel)"
        by (simp add: list_all_iff)
      also have "\<dots> = list_all (\<lambda>s. score b \<le> s) (map score (take 3 ?from))"
        unfolding scores ..
      also have "\<dots> = list_all (\<lambda>a. score b \<le> score a) (take 3 ?from)"
        by (simp add: list_all_iff)
      finally show ?thesis .
    qed
    show ?thesis
      unfolding same using from_sorted by (rule sorted_desc_rest)
  qed
  show ?thesis
    by (intro exI [of _ ?ys] conjI) (fact run, fact core, fact ranks, fact desc, fact top)
qed

text \<open>The fixture of the selection test: four articles of one category, three selected.\<close>

theorem selectTopArticles_top3_witness:
  "sorted_wrt (\<lambda>a b. score a \<ge> score b) scoredFixture
   \<and> groupable scoredFixture
   \<and> ''ai-providers'' \<in> set CATEGORY_IDS
   \<and> (\<exists>ys. selectTopArticles 2 scoredFixture = Inr ys
         \<and> map score (articlesOfCategory ys ''ai-providers'') = [90, 85, 80]
         \<and> map a_categoryRank (articlesOfCategory ys ''ai-providers'')
             = [Some 1, Some 2, Some 3])"
proof -
  let ?pool = "articlesOfCategory scoredFixture ''ai-providers''"
  let ?chosen = "if 3 \<le> length (filter (\<lambda>a. score a \<ge> 60) ?pool)
                 then take 3 (filter (\<lambda>a. score a \<ge> 60) ?pool) else take 3 ?pool"
  have s: "sorted_wrt (\<lambda>a b. score a \<ge> score b) scoredFixture"
    by code_simp
  have g: "groupable scoredFixture"
    by code_simp
  have c: "''ai-providers'' \<in> set CATEGORY_IDS"
    by (simp add: CATEGORY_IDS_def)
  have ev: "map score ?chosen = [90, 85, 80]"
    by code_simp
  have "\<exists>ys. selectTopArticles 2 scoredFixture = Inr ys
     \<and> map articleCore (articlesOfCategory ys ''ai-providers'') = map articleCore ?chosen
     \<and> map a_categoryRank (articlesOfCategory ys ''ai-providers'')
         = map Some [1..<Suc (length (articlesOfCategory ys ''ai-providers''))]"
    using selectTopArticles_top3 [OF s g c, of 2]
    by (elim exE conjE) (intro exI conjI; assumption)
  then obtain ys where run: "selectTopArticles 2 scoredFixture = Inr ys"
    and core: "map articleCore (articlesOfCategory ys ''ai-providers'') = map articleCore ?chosen"
    and ranks: "map a_categoryRank (articlesOfCategory ys ''ai-providers'')
         = map Some [1..<Suc (length (articlesOfCategory ys ''ai-providers''))]"
    by (elim exE conjE)
  have scores: "map score (articlesOfCategory ys ''ai-providers'') = [90, 85, 80]"
    using core_to_score [OF core] ev by simp
  then have "length (map score (articlesOfCategory ys ''ai-providers'')) = 3"
    by simp
  then have len: "length (articlesOfCategory ys ''ai-providers'') = 3"
    by simp
  have rk: "map a_categoryRank (articlesOfCategory ys ''ai-providers'')
             = [Some 1, Some 2, Some 3]"
    unfolding ranks len by (simp add: upt_rec)
  show ?thesis
    by (intro conjI exI [of _ ys]) (fact s, fact g, fact c, fact run, fact scores, fact rk)
qed

subsection \<open>Invariants of the scheduler\<close>

lemma map_of_foldl_update:
  "map_of (foldl (\<lambda>q x. AList.update (k x) (v x) q) q0 xs) pid = Some post
   \<Longrightarrow> (\<exists>x\<in>set xs. pid = k x \<and> post = v x) \<or> map_of q0 pid = Some post"
proof (induction xs arbitrary: q0)
  case Nil
  then show ?case by simp
next
  case (Cons a xs)
  from Cons.prems
  have "map_of (foldl (\<lambda>q x. AList.update (k x) (v x) q) (AList.update (k a) (v a) q0) xs) pid
          = Some post"
    by simp
  from Cons.IH [OF this]
  have "(\<exists>x\<in>set xs. pid = k x \<and> post = v x)
        \<or> map_of (AList.update (k a) (v a) q0) pid = Some post" .
  then show ?case
  proof
    assume "\<exists>x\<in>set xs. pid = k x \<and> post = v x"
    then show ?thesis by auto
  next
    assume "map_of (AList.update (k a) (v a) q0) pid = Some post"
    then have "(pid = k a \<and> post = v a) \<or> map_of q0 pid = Some post"
      by (simp add: update_conv' split: if_splits)
    then show ?thesis by auto
  qed
qed

lemma map_of_assign:
  "map_of (map (\<lambda>(k, post). (k, f post)) al) pid = map_option f (map_of al pid)"
  by (induction al) auto

lemma assignPost_status: "p_status (assignPost arts post) \<noteq> Posted"
  by (simp add: assignPost_def Let_def)

lemma assignPost_id: "p_id (assignPost arts post) = p_id post"
  by (simp add: assignPost_def Let_def)

lemma inv_new: "postedInv newScheduler \<and> keyInv newScheduler"
  by (simp add: postedInv_def keyInv_def newScheduler_def)

lemma inv_init:
  assumes "postedInv s \<and> keyInv s"
  shows "postedInv (initializeDailySchedule now q s) \<and> keyInv (initializeDailySchedule now q s)"
proof -
  have origin: "(\<exists>slot\<in>set POSTING_SCHEDULE.
            k = getTodayString now @ ''-'' @ showNat (postNumber slot)
            \<and> post = postOfSlot now q slot)
        \<or> map_of (queue s) k = Some post"
    if "map_of (queue (initializeDailySchedule now q s)) k = Some post" for k post
    using that unfolding initializeDailySchedule_def
    by (simp add: map_of_foldl_update)
  have fresh: "p_status (postOfSlot now q slot) = Pending
      \<and> p_id (postOfSlot now q slot) = getTodayString now @ ''-'' @ showNat (postNumber slot)"
    for slot
    by (simp add: postOfSlot_def)
  have same: "postedToday (initializeDailySchedule now q s) = postedToday s"
    by (simp add: initializeDailySchedule_def)
  have "k \<in> postedToday (initializeDailySchedule now q s)"
    if "map_of (queue (initializeDailySchedule now q s)) k = Some post" "p_status post = Posted"
    for k post
    using origin [OF that(1)] that(2) fresh assms unfolding postedInv_def same by auto
  moreover have "p_id post = k"
    if "map_of (queue (initializeDailySchedule now q s)) k = Some post" for k post
    using origin [OF that] fresh assms unfolding keyInv_def by auto
  ultimately show ?thesis unfolding postedInv_def keyInv_def by blast
qed

lemma inv_assign:
  assumes "postedInv s \<and> keyInv s" and "assignArticlesToSchedule arts s = Inr s'"
  shows "postedInv s' \<and> keyInv s'"
proof -
  from assms(2) have s': "s' = s\<lparr>queue := map (\<lambda>(k, post). (k, assignPost arts post)) (queue s)\<rparr>"
    by (simp add: assignArticlesToSchedule_def split: if_splits)
  show ?thesis
    using assms(1) unfolding postedInv_def keyInv_def s'
    by (auto simp: map_of_assign assignPost_status assignPost_id)
qed

lemma inv_update:
  assumes inv: "postedInv s \<and> keyInv s"
    and old: "map_of (queue s) k = Some post"
    and id: "p_id post' = p_id post"
    and st: "p_status post' = Posted \<longrightarrow> k \<in> P"
    and sub: "postedToday s \<subseteq> P"
  shows "postedInv (s\<lparr>queue := AList.update k post' (queue s), postedToday := P\<rparr>)
       \<and> keyInv (s\<lparr>queue := AList.update k post' (queue s), postedToday := P\<rparr>)"
  using assms unfolding postedInv_def keyInv_def
  by (auto simp: update_conv' split: if_splits)

lemma inv_markPosted:
  assumes "postedInv s \<and> keyInv s"
  shows "postedInv (markPosted s k tid now) \<and> keyInv (markPosted s k tid now)"
proof (cases "map_of (queue s) k")
  case None
  with assms show ?thesis by (simp add: markPosted_def)
next
  case (Some post)
  from inv_update [OF assms Some, of "post\<lparr>p_status := Posted, p_tweetId := Some tid,
        p_postedAt := Some now\<rparr>" "insert k (postedToday s)"]
  show ?thesis using Some by (auto simp: markPosted_def)
qed

lemma inv_markFailed:
  assumes "postedInv s \<and> keyInv s"
  shows "postedInv (markFailed s k err) \<and> keyInv (markFailed s k err)"
proof (cases "map_of (queue s) k")
  case None
  with assms show ?thesis by (simp add: markFailed_def)
next
  case (Some post)
  from inv_update [OF assms Some, of "post\<lparr>p_status := Failed, p_error := Some err\<rparr>"
       "postedToday s"]
  show ?thesis using Some by (simp add: markFailed_def)
qed

lemma inv_setTweetContent:
  assumes "postedInv s \<and> keyInv s"
  shows "postedInv (setTweetContent s k text tags) \<and> keyInv (setTweetContent s k text tags)"
proof (cases "map_of (queue s) k")
  case None
  with assms show ?thesis by (simp add: setTweetContent_def)
next
  case (Some post)
  have "p_status post = Posted \<longrightarrow> k \<in> postedToday s"
    using assms Some unfolding postedInv_def by blast
  with inv_update [OF assms Some, of "post\<lparr>p_tweetText := Some text, p_hashtags := tags\<rparr>"
       "postedToday s"]
  show ?thesis using Some by (simp add: setTweetContent_def)
qed

lemma inv_clear: "postedInv (clearSchedule s) \<and> keyInv (clearSchedule s)"
  by (simp add: postedInv_def keyInv_def clearSchedule_def)

lemma inv_import_step:
  assumes "postedInv t \<and> keyInv t"
  shows "postedInv (t\<lparr>queue := AList.update (p_id post) post (queue t),
                       postedToday := (if p_status post = Posted
                                       then insert (p_id post) (postedToday t)
                                       else postedToday t)\<rparr>)
       \<and> keyInv (t\<lparr>queue := AList.update (p_id post) post (queue t),
                       postedToday := (if p_status post = Posted
                                       then insert (p_id post) (postedToday t)
                                       else postedToday t)\<rparr>)"
  using assms unfolding postedInv_def keyInv_def
  by (auto simp: update_conv' split: if_splits)

lemma inv_import_fold:
  assumes "postedInv t \<and> keyInv t"
  shows "postedInv (foldl (\<lambda>t post.
              t\<lparr>queue := AList.update (p_id post) post (queue t),
                postedToday := (if p_status post = Posted
                                then insert (p_id post) (postedToday t)
                                else postedToday t)\<rparr>) t schedule)
       \<and> keyInv (foldl (\<lambda>t post.
              t\<lparr>queue := AList.update (p_id post) post (queue t),
                postedToday := (if p_status post = Posted
                                then insert (p_id post) (postedToday t)
                                else postedToday t)\<rparr>) t schedule)"
  using assms
proof (induction schedule arbitrary: t)
  case Nil
  then show ?case by simp
next
  case (Cons post schedule)
  from Cons.IH [OF inv_import_step [OF Cons.prems, of post]]
  show ?case by simp
qed

lemma inv_import: "postedInv (importSchedule schedule s) \<and> keyInv (importSchedule schedule s)"
  unfolding importSchedule_def
  by (rule inv_import_fold) (simp add: postedInv_def keyInv_def)

lemma attempt_state:
  "attempt env s post now = (s', r, effs)
   \<Longrightarrow> (s' = s \<and> (\<exists>e. r = Inl e)) \<or> (\<exists>tid. s' = markPosted s (p_id post) tid now)"
  by (auto simp: attempt_def Let_def split: sum.splits prod.splits if_splits option.splits)

lemma run_state:
  assumes "run env s now = (s', res, effs)"
  shows "s' = s \<or> (\<exists>k tid. s' = markPosted s k tid now)"
proof (cases "getCurrentPost s now")
  case None
  with assms show ?thesis by (simp add: run_def)
next
  case (Some post)
  show ?thesis
  proof (cases "p_status post = Ready")
    case False
    with assms Some show ?thesis by (simp add: run_def)
  next
    case True
    obtain s1 r1 e1 where a: "attempt env s post now = (s1, r1, e1)"
      by (cases "attempt env s post now") auto
    with assms Some True have "s' = s1"
      by (auto simp: run_def split: sum.splits error.splits)
    with attempt_state [OF a] show ?thesis by blast
  qed
qed

lemma run_published:
  assumes "run env s now = (s', res, effs)" and "r_post res \<noteq> None"
  shows "\<exists>post tid. getCurrentPost s now = Some post \<and> s' = markPosted s (p_id post) tid now"
proof (cases "getCurrentPost s now")
  case None
  with assms show ?thesis by (auto simp: run_def)
next
  case (Some post)
  show ?thesis
  proof (cases "p_status post = Ready")
    case False
    with assms Some show ?thesis by (auto simp: run_def)
  next
    case True
    obtain s1 r1 e1 where a: "attempt env s post now = (s1, r1, e1)"
      by (cases "attempt env s post now") auto
    with assms Some True have "s' = s1" and "\<exists>p. r1 = Inr p"
      by (auto simp: run_def split: sum.splits error.splits)
    with attempt_state [OF a] Some show ?thesis by auto
  qed
qed

lemma getCurrentPost_Some:
  "getCurrentPost s now = Some post
   \<Longrightarrow> \<exists>k. currentPostId now = Some k \<and> map_of (queue s) k = Some post \<and> k \<notin> postedToday s"
  by (auto simp: getCurrentPost_def split: option.splits if_splits)

lemma inv_run:
  assumes inv: "postedInv s \<and> keyInv s" and r: "run env s now = (s', res, effs)"
  shows "postedInv s' \<and> keyInv s'"
proof -
  from run_state [OF r] show ?thesis
  proof
    assume "s' = s"
    with inv show ?thesis by simp
  next
    assume "\<exists>k tid. s' = markPosted s k tid now"
    then obtain k tid where "s' = markPosted s k tid now" by blast
    with inv_markPosted [OF inv, of k tid now] show ?thesis by simp
  qed
qed

lemma inv_retry:
  assumes inv: "postedInv s \<and> keyInv s" and r: "retryPost env s k now = (s', res, effs)"
  shows "postedInv s' \<and> keyInv s'"
proof (cases "map_of (queue s) k")
  case None
  with r inv show ?thesis by (simp add: retryPost_def)
next
  case (Some post)
  show ?thesis
  proof (cases "p_status post = Failed")
    case False
    with r inv Some show ?thesis by (simp add: retryPost_def)
  next
    case True
    let ?s1 = "s\<lparr>queue := AList.update k (post\<lparr>p_status := Ready\<rparr>) (queue s)\<rparr>"
    have "?s1 = s\<lparr>queue := AList.update k (post\<lparr>p_status := Ready\<rparr>) (queue s),
                    postedToday := postedToday s\<rparr>"
      by simp
    with inv_update [OF inv Some, of "post\<lparr>p_status := Ready\<rparr>" "postedToday s"]
    have inv1: "postedInv ?s1 \<and> keyInv ?s1" by simp
    from r Some True have "run env ?s1 now = (s', res, effs)"
      by (simp add: retryPost_def)
    from inv_run [OF inv1 this] show ?thesis .
  qed
qed

lemma reachable_inv: "reachable s \<Longrightarrow> postedInv s \<and> keyInv s"
proof (induction rule: reachable.induct)
  case reach_new
  show ?case by (rule inv_new)
next
  case (reach_init s now quoteId)
  from inv_init [OF reach_init.IH] show ?case .
next
  case (reach_assign s arts s')
  from inv_assign [OF reach_assign.IH reach_assign.hyps(2)] show ?case .
next
  case (reach_posted s postId tweetId now)
  from inv_markPosted [OF reach_posted.IH] show ?case .
next
  case (reach_failed s postId err)
  from inv_markFailed [OF reach_failed.IH] show ?case .
next
  case (reach_content s postId tweetText hashtags)
  from inv_setTweetContent [OF reach_content.IH] show ?case .
next
  case (reach_clear s)
  show ?case by (rule inv_clear)
next
  case (reach_import s schedule)
  show ?case by (rule inv_import)
next
  case (reach_run s env now s' res effs)
  from inv_run [OF reach_run.IH reach_run.hyps(2)] show ?case .
next
  case (reach_retry s env postId now s' res effs)
  from inv_retry [OF reach_retry.IH reach_retry.hyps(2)] show ?case .
qed

lemma posted_noop:
  assumes "currentPostId now = Some k" and "map_of (queue s) k = Some post"
    and "k \<in> postedToday s"
  shows "getCurrentPost s now = None"
    and "run env s now
         = (s, \<lparr>r_success = True, r_message = Some ''No post scheduled'', r_error = None,
                r_post = None\<rparr>, [])"
  using assms by (simp_all add: getCurrentPost_def run_def)


lemma cur_june: "currentPostId juneMorning = Some ''2024-06-12-1''"
  by code_simp

lemma cur_later: "currentPostId (juneMorning + 60000) = Some ''2024-06-12-1''"
  by code_simp

lemma queue_ready:
  "queue readyState = [(''2024-06-12-1'', readyPost)]" "postedToday readyState = {}"
  by (simp_all add: readyState_def importSchedule_def newScheduler_def readyPost_def)

lemma current_ready: "getCurrentPost readyState juneMorning = Some readyPost"
  by (simp add: getCurrentPost_def cur_june queue_ready)

lemma ready_fields: "p_status readyPost = Ready" "p_id readyPost = ''2024-06-12-1''"
  "p_error readyPost = None"
  by (simp_all add: readyPost_def)

lemma run_failure_keeps_state:
  assumes "getCurrentPost s now = Some post" and "p_status post = Ready"
    and "env_tweetContent env = Inr (t, tags)" and "\<not> env_isDuplicate env t"
    and "\<not> env_dryRun env" and "env_postTweet env t = Inl (Error m)"
  shows "run env s now
         = (s, \<lparr>r_success = False, r_message = None, r_error = Some m, r_post = None\<rparr>,
            [PostTweet t, SendErrorAlert m])"
  using assms by (simp add: run_def attempt_def)

lemma first_run:
  "run workingEnv readyState juneMorning
     = (markPosted readyState ''2024-06-12-1'' ''1800000000000000001'' juneMorning,
        \<lparr>r_success = True, r_message = None, r_error = None,
          r_post = Some (''2024-06-12-1'', ''1800000000000000001'',
                         ''Worth watching https://techcrunch.com/article #AI'')\<rparr>,
        [PostTweet ''Worth watching https://techcrunch.com/article #AI'',
         LogPostedTweet ''1800000000000000001''])"
  by (simp add: run_def attempt_def current_ready ready_fields workingEnv_def)

lemma failing_run:
  "run failingEnv readyState juneMorning
     = (readyState,
        \<lparr>r_success = False, r_message = None, r_error = Some ''Twitter API error: 503'',
          r_post = None\<rparr>,
        [PostTweet ''Worth watching https://techcrunch.com/article #AI'',
         SendErrorAlert ''Twitter API error: 503''])"
  by (rule run_failure_keeps_state [OF current_ready ready_fields(1)])
     (simp_all add: failingEnv_def workingEnv_def)


subsection \<open>The guard of \<open>getCurrentPost\<close> within one instance of the service\<close>

text \<open>
  As long as one and the same \<open>SchedulerService\<close> is used, the guard works: in every
  state that instance can reach, a call of \<open>run\<close> whose time slot and civic day resolve
  to a post with status \<open>posted\<close> finds the id of the post in \<open>postedToday\<close>,
  \<open>getCurrentPost\<close> returns \<open>null\<close>, and \<open>run\<close> leaves the state as it is, reports that no
  post is scheduled and makes no call to the outside. In particular, after a call of
  \<open>run\<close> that published a post, every later call on the resulting state that resolves
  to the same post id does nothing, whatever the collaborators would do.
\<close>

theorem posted_slot_is_noop:
  assumes reach: "reachable s"
  shows "(currentPostId now = Some k \<and> map_of (queue s) k = Some post \<and> p_status post = Posted
          \<longrightarrow> k \<in> postedToday s
              \<and> getCurrentPost s now = None
              \<and> run env s now
                  = (s, \<lparr>r_success = True, r_message = Some ''No post scheduled'',
                         r_error = None, r_post = None\<rparr>, []))
       \<and> (run env s now = (s', res, effs) \<and> r_post res \<noteq> None
          \<and> currentPostId now' = currentPostId now
          \<longrightarrow> run env' s' now'
                = (s', \<lparr>r_success = True, r_message = Some ''No post scheduled'',
                        r_error = None, r_post = None\<rparr>, []))"
proof (intro conjI impI)
  from reachable_inv [OF reach] have pinv: "postedInv s" and kinv: "keyInv s"
    by simp_all
  {
    assume h: "currentPostId now = Some k \<and> map_of (queue s) k = Some post
               \<and> p_status post = Posted"
    with pinv show in_set: "k \<in> postedToday s"
      unfolding postedInv_def by blast
    from h in_set show "getCurrentPost s now = None"
      by (intro posted_noop(1) [of now k s post]) simp_all
    from h in_set show "run env s now
                  = (s, \<lparr>r_success = True, r_message = Some ''No post scheduled'',
                         r_error = None, r_post = None\<rparr>, [])"
      by (intro posted_noop(2) [of now k s post]) simp_all
  }
  assume h: "run env s now = (s', res, effs) \<and> r_post res \<noteq> None
          \<and> currentPostId now' = currentPostId now"
  then obtain p tid where cur: "getCurrentPost s now = Some p"
    and s': "s' = markPosted s (p_id p) tid now"
    using run_published [of env s now s' res effs] by blast
  from getCurrentPost_Some [OF cur] obtain j where j: "currentPostId now = Some j"
    "map_of (queue s) j = Some p"
    by blast
  with kinv have id: "p_id p = j"
    unfolding keyInv_def by blast
  have q: "map_of (queue s') j
            = Some (p\<lparr>p_status := Posted, p_tweetId := Some tid, p_postedAt := Some now\<rparr>)"
    and m: "j \<in> postedToday s'"
    unfolding s' id using j(2) by (simp_all add: markPosted_def update_conv')
  from h j have "currentPostId now' = Some j" by simp
  from posted_noop(2) [OF this q m]
  show "run env' s' now'
                = (s', \<lparr>r_success = True, r_message = Some ''No post scheduled'',
                        r_error = None, r_post = None\<rparr>, [])" .
qed

text \<open>
  The post of the first slot of 12 June 2024 is published at 13:00 UTC; a call of \<open>run\<close>
  on the resulting state one minute later resolves to the same post and does nothing.
\<close>

theorem posted_slot_is_noop_witness:
  "reachable (fst (run workingEnv readyState juneMorning))
   \<and> currentPostId (juneMorning + 60000) = Some ''2024-06-12-1''
   \<and> map_option p_status
       (map_of (queue (fst (run workingEnv readyState juneMorning))) ''2024-06-12-1'')
       = Some Posted
   \<and> ''2024-06-12-1'' \<in> postedToday (fst (run workingEnv readyState juneMorning))
   \<and> getCurrentPost (fst (run workingEnv readyState juneMorning)) (juneMorning + 60000) = None
   \<and> run failingEnv (fst (run workingEnv readyState juneMorning)) (juneMorning + 60000)
       = (fst (run workingEnv readyState juneMorning),
          \<lparr>r_success = True, r_message = Some ''No post scheduled'', r_error = None,
            r_post = None\<rparr>, [])
   \<and> r_post (fst (snd (run workingEnv readyState juneMorning))) \<noteq> None
   \<and> currentPostId (juneMorning + 60000) = currentPostId juneMorning
   \<and> run workingEnv (fst (run workingEnv readyState juneMorning)) (juneMorning + 60000)
       = (fst (run workingEnv readyState juneMorning),
          \<lparr>r_success = True, r_message = Some ''No post scheduled'', r_error = None,
            r_post = None\<rparr>, [])"
proof -
  let ?first = "run workingEnv readyState juneMorning"
  let ?s1 = "fst ?first"
  let ?later = "juneMorning + 60000"
  let ?k = "''2024-06-12-1''"
  let ?noop = "\<lparr>r_success = True, r_message = Some ''No post scheduled'', r_error = None,
                 r_post = None\<rparr>"
  have r0: "reachable readyState"
    unfolding readyState_def by (rule reach_import) (rule reach_new)
  have first: "?first = (?s1, fst (snd ?first), snd (snd ?first))"
    by simp
  have r1: "reachable ?s1"
    by (rule reach_run [OF r0 first])
  have st: "map_option p_status (map_of (queue ?s1) ?k) = Some Posted"
    by (simp add: first_run markPosted_def queue_ready)
  then obtain post where post: "map_of (queue ?s1) ?k = Some post" "p_status post = Posted"
    by auto
  have pub: "r_post (fst (snd ?first)) \<noteq> None"
    by (simp add: first_run)
  have same: "currentPostId ?later = currentPostId juneMorning"
    by (simp only: cur_later cur_june)
  have hyp1: "currentPostId ?later = Some ?k \<and> map_of (queue ?s1) ?k = Some post
              \<and> p_status post = Posted"
    using cur_later post by (intro conjI)
  have a: "?k \<in> postedToday ?s1 \<and> getCurrentPost ?s1 ?later = None
           \<and> run failingEnv ?s1 ?later = (?s1, ?noop, [])"
    by (rule posted_slot_is_noop [OF r1, of ?later ?k post failingEnv, THEN conjunct1,
              THEN mp, OF hyp1])
  have hyp2: "?first = (?s1, fst (snd ?first), snd (snd ?first))
              \<and> r_post (fst (snd ?first)) \<noteq> None
              \<and> currentPostId ?later = currentPostId juneMorning"
    using first pub same by (intro conjI)
  have b: "run workingEnv ?s1 ?later = (?s1, ?noop, [])"
    by (rule posted_slot_is_noop [OF r0, of juneMorning ?k readyPost workingEnv ?s1
              "fst (snd ?first)" "snd (snd ?first)" ?later workingEnv, THEN conjunct2,
              THEN mp, OF hyp2])
  from a have a1: "?k \<in> postedToday ?s1" by (rule conjunct1)
  from a have a2: "getCurrentPost ?s1 ?later = None" by (rule conjunct2 [THEN conjunct1])
  from a have a3: "run failingEnv ?s1 ?later = (?s1, ?noop, [])"
    by (rule conjunct2 [THEN conjunct2])
  show ?thesis
    by (intro conjI)
       (fact r1, fact cur_later, fact st, fact a1, fact a2, fact a3, fact pub, fact same, fact b)
qed

subsection \<open>A repeated trigger of the same slot\<close>

lemma importFold_postedToday:
  "postedToday
     (foldl (\<lambda>t post.
               t\<lparr>queue := AList.update (p_id post) post (queue t),
                 postedToday := (if p_status post = Posted
                                 then insert (p_id post) (postedToday t)
                                 else postedToday t)\<rparr>) t posts)
     = postedToday t \<union> p_id ` {p \<in> set posts. p_status p = Posted}"
  by (induction posts arbitrary: t) auto

lemma importSchedule_postedToday:
  "postedToday (importSchedule posts s)
     = postedToday s \<union> p_id ` {p \<in> set posts. p_status p = Posted}"
  unfolding importSchedule_def importFold_postedToday by simp

lemma loadHeadlines_status:
  assumes "(k, post) \<in> set (queue (loadHeadlines headlines
                                     (initializeDailySchedule now q newScheduler)))"
  shows "p_status post \<noteq> Posted"
proof -
  let ?s = "initializeDailySchedule now q newScheduler"
  have init: "p_status p \<noteq> Posted" if "(j, p) \<in> set (queue ?s)" for j p
    using that unfolding queue_initialize by (auto simp: postOfSlot_def)
  have load: "queue (loadHeadlines headlines ?s) = queue ?s
      \<or> (\<exists>arts. queue (loadHeadlines headlines ?s)
                   = map (\<lambda>(k, post). (k, assignPost arts post)) (queue ?s))"
    by (auto simp: loadHeadlines_def assignArticlesToSchedule_def split: sum.splits)
  from load show ?thesis
  proof
    assume "queue (loadHeadlines headlines ?s) = queue ?s"
    with assms init show ?thesis by simp
  next
    assume "\<exists>arts. queue (loadHeadlines headlines ?s)
                   = map (\<lambda>(k, post). (k, assignPost arts post)) (queue ?s)"
    then obtain arts where "queue (loadHeadlines headlines ?s)
                   = map (\<lambda>(k, post). (k, assignPost arts post)) (queue ?s)" ..
    with assms obtain p where "post = assignPost arts p"
      by auto
    then show ?thesis by (simp add: assignPost_def Let_def)
  qed
qed

lemma posterState_fresh: "postedToday (posterState now q headlines) = {}"
proof -
  have "p_status p \<noteq> Posted"
    if "p \<in> set (exportSchedule (loadHeadlines headlines
                                    (initializeDailySchedule now q newScheduler)))" for p
  proof -
    from that obtain k post
      where "(k, post) \<in> set (queue (loadHeadlines headlines
                                       (initializeDailySchedule now q newScheduler)))"
        and "p = post\<lparr>p_article := map_option exportArticle (p_article post)\<rparr>"
      by (auto simp: exportSchedule_def)
    with loadHeadlines_status show ?thesis by fastforce
  qed
  then show ?thesis
    unfolding posterState_def importSchedule_postedToday
    by (auto simp: newScheduler_def)
qed

lemma attempt_snd: "snd (attempt env s post t') = snd (attempt env s post t)"
  by (simp add: attempt_def Let_def split: sum.splits prod.splits option.splits)

lemma run_snd:
  assumes "getCurrentPost s t' = getCurrentPost s t"
  shows "snd (run env s t') = snd (run env s t)"
proof (cases "getCurrentPost s t")
  case None
  with assms show ?thesis by (simp add: run_def)
next
  case (Some post)
  obtain s1 r1 e1 where a: "attempt env s post t = (s1, r1, e1)"
    by (cases "attempt env s post t")
  obtain s2 r2 e2 where b: "attempt env s post t' = (s2, r2, e2)"
    by (cases "attempt env s post t'")
  from attempt_snd [of env s post t' t] a b have "r2 = r1" "e2 = e1"
    by simp_all
  with assms Some a b show ?thesis
    by (simp add: run_def split: sum.splits error.splits)
qed

text \<open>
  C1. A repeated trigger for the same time slot on the same civic day is meant to be
  a no-op once the post is \<open>posted\<close>. The guard of \<open>getCurrentPost\<close> reads \<open>postedToday\<close>
  of the scheduler it is called on, and \<open>runPosting\<close> builds that scheduler anew at
  every trigger: whatever the sheet holds, \<open>run\<close> starts with an empty \<open>postedToday\<close>.
  So a second trigger on the same civic day, in the same UTC hour and under the same
  daylight-saving regime starts from the same scheduler state, resolves to the same
  post id, and does what the first trigger did: when the first one published the
  post, the second one publishes it again.
\<close>

theorem runPosting_publishes_again:
  assumes day: "getTodayString now' = getTodayString now"
    and hour: "getUTCHours now' = getUTCHours now"
    and dst: "isEasternDST_schedule now' = isEasternDST_schedule now"
  shows "postedToday (posterState now quoteId headlines) = {}
       \<and> posterState now' quoteId headlines = posterState now quoteId headlines
       \<and> currentPostId now' = currentPostId now
       \<and> snd (runPosting env now' quoteId headlines) = snd (runPosting env now quoteId headlines)"
proof -
  have init: "initializeDailySchedule now' quoteId newScheduler
                = initializeDailySchedule now quoteId newScheduler"
    by (simp add: initializeDailySchedule_def postOfSlot_def day dst)
  then have state: "posterState now' quoteId headlines = posterState now quoteId headlines"
    by (simp add: posterState_def)
  have cur: "currentPostId now' = currentPostId now"
    unfolding currentPostId_def day hour dst by (rule refl)
  then have "getCurrentPost (posterState now quoteId headlines) now'
               = getCurrentPost (posterState now quoteId headlines) now"
    by (simp add: getCurrentPost_def)
  from run_snd [OF this]
  have "snd (runPosting env now' quoteId headlines) = snd (runPosting env now quoteId headlines)"
    by (simp add: runPosting_def state)
  with posterState_fresh state cur show ?thesis by blast
qed

lemma june_day: "getTodayString juneMorning = ''2024-06-12''"
  "getTodayString (juneMorning + 60000) = ''2024-06-12''"
  by code_simp+

lemma june_hour: "getUTCHours juneMorning = 13" "getUTCHours (juneMorning + 60000) = 13"
  by code_simp+

lemma june_dst: "isEasternDST_schedule juneMorning" "isEasternDST_schedule (juneMorning + 60000)"
  by code_simp+

lemma first_trigger:
  "snd (runPosting workingEnv juneMorning 7 headlinesSheet)
     = (\<lparr>r_success = True, r_message = None, r_error = None,
          r_post = Some (''2024-06-12-1'', ''1800000000000000001'',
                         ''Worth watching https://techcrunch.com/article #AI'')\<rparr>,
        [PostTweet ''Worth watching https://techcrunch.com/article #AI'',
         LogPostedTweet ''1800000000000000001''])"
  by code_simp

text \<open>
  Two triggers on Wednesday 12 June 2024, at 13:00 and at 13:01 UTC, with the sheet of
  the day holding the top article of the first category and every collaborator
  working: each of them publishes the post of the first slot.
\<close>

theorem runPosting_publishes_again_witness:
  "getTodayString (juneMorning + 60000) = getTodayString juneMorning
   \<and> getUTCHours (juneMorning + 60000) = getUTCHours juneMorning
   \<and> isEasternDST_schedule (juneMorning + 60000) = isEasternDST_schedule juneMorning
   \<and> currentPostId (juneMorning + 60000) = Some ''2024-06-12-1''
   \<and> snd (runPosting workingEnv juneMorning 7 headlinesSheet)
       = (\<lparr>r_success = True, r_message = None, r_error = None,
            r_post = Some (''2024-06-12-1'', ''1800000000000000001'',
                           ''Worth watching https://techcrunch.com/article #AI'')\<rparr>,
          [PostTweet ''Worth watching https://techcrunch.com/article #AI'',
           LogPostedTweet ''1800000000000000001''])
   \<and> snd (runPosting workingEnv (juneMorning + 60000) 7 headlinesSheet)
       = (\<lparr>r_success = True, r_message = None, r_error = None,
            r_post = Some (''2024-06-12-1'', ''1800000000000000001'',
                           ''Worth watching https://techcrunch.com/article #AI'')\<rparr>,
          [PostTweet ''Worth watching https://techcrunch.com/article #AI'',
           LogPostedTweet ''1800000000000000001''])"
proof -
  have day: "getTodayString (juneMorning + 60000) = getTodayString juneMorning"
    by (simp only: june_day)
  have hour: "getUTCHours (juneMorning + 60000) = getUTCHours juneMorning"
    by (simp only: june_hour)
  have dst: "isEasternDST_schedule (juneMorning + 60000) = isEasternDST_schedule juneMorning"
    by (simp only: june_dst)
  note again = runPosting_publishes_again [OF day hour dst, of 7 headlinesSheet workingEnv]
  from again have "currentPostId (juneMorning + 60000) = currentPostId juneMorning"
    by (elim conjE)
  then have cur: "currentPostId (juneMorning + 60000) = Some ''2024-06-12-1''"
    by (simp only: cur_june)
  from again
  have "snd (runPosting workingEnv (juneMorning + 60000) 7 headlinesSheet)
          = snd (runPosting workingEnv juneMorning 7 headlinesSheet)"
    by (elim conjE)
  then have second: "snd (runPosting workingEnv (juneMorning + 60000) 7 headlinesSheet)
       = (\<lparr>r_success = True, r_message = None, r_error = None,
            r_post = Some (''2024-06-12-1'', ''1800000000000000001'',
                           ''Worth watching https://techcrunch.com/article #AI'')\<rparr>,
          [PostTweet ''Worth watching https://techcrunch.com/article #AI'',
           LogPostedTweet ''1800000000000000001''])"
    by (simp only: first_trigger)
  show ?thesis
    by (intro conjI) (fact day, fact hour, fact dst, fact cur, fact first_trigger, fact second)
qed

subsection \<open>A failed publish attempt\<close>

text \<open>
  C2. When the publish attempt of a ready post fails, the post is meant to become
  \<open>failed\<close> and to record the error, and an alert is sent. The \<open>catch\<close> block of \<open>run\<close>
  sends the alert and fills the result, but never calls \<open>markFailed\<close>: with the publish
  call failing for the ready post of the first slot, the post is still \<open>ready\<close> after the
  run and carries no error.
\<close>

theorem run_failure_leaves_post_ready:
  "getCurrentPost readyState juneMorning = Some readyPost
   \<and> p_status readyPost = Ready
   \<and> map (\<lambda>(k, post). (k, p_status post, p_error post))
        (queue (fst (run failingEnv readyState juneMorning)))
       = [(''2024-06-12-1'', Ready, None)]
   \<and> fst (snd (run failingEnv readyState juneMorning))
       = \<lparr>r_success = False, r_message = None, r_error = Some ''Twitter API error: 503'',
          r_post = None\<rparr>
   \<and> snd (snd (run failingEnv readyState juneMorning))
       = [PostTweet ''Worth watching https://techcrunch.com/article #AI'',
          SendErrorAlert ''Twitter API error: 503'']"
  by (simp add: failing_run current_ready ready_fields queue_ready)

subsection \<open>Source label of a collection\<close>


lemma dedupFrom_subset: "set (dedupFrom seen xs) \<subseteq> set xs"
  by (induction xs arbitrary: seen) auto

lemma dedup_subset: "set (deduplicateArticles xs) \<subseteq> set xs"
  by (simp add: deduplicateArticles_def dedupFrom_subset)

lemma dedupFrom_length: "length (dedupFrom seen xs) \<le> length xs"
  by (induction xs arbitrary: seen) (auto intro: le_SucI)

lemma dedup_length: "length (deduplicateArticles xs) \<le> length xs"
  by (simp add: deduplicateArticles_def dedupFrom_length)

lemma dedup_head:
  "url a \<noteq> [] \<Longrightarrow> deduplicateArticles (a # xs) = a # dedupFrom [normalizeUrl (url a)] xs"
  by (simp add: deduplicateArticles_def)

lemma attempts_Inr: "attempts f js e = Inr x \<Longrightarrow> \<exists>i\<in>set js. f i = Inr x"
  by (induction js arbitrary: e) (auto split: sum.splits)

lemma enrichArticle_Some:
  "enrichArticle now item cid api = Some a \<Longrightarrow> a_apiUsed a = Some api \<and> category a = cid"
  by (auto simp: enrichArticle_def split: option.splits)

lemma enriched_valid:
  assumes "a \<in> set (filter (validateArticle isValidUrl)
                      (List.map_filter id (map (\<lambda>item. enrichArticle now item cid api) items)))"
  shows "a_apiUsed a = Some api \<and> url a \<noteq> []"
proof -
  from assms have v: "validateArticle isValidUrl a"
    and "\<exists>item. enrichArticle now item cid api = Some a"
    by (auto simp: map_filter_def)
  then obtain item where "enrichArticle now item cid api = Some a" by blast
  from enrichArticle_Some [OF this] v show ?thesis
    by (simp add: validateArticle_def)
qed

lemma perplexity_articles:
  assumes "scrapeWithPerplexity isValidUrl now search cid = Inr ps" and "a \<in> set ps"
  shows "a_apiUsed a = Some ''perplexity'' \<and> url a \<noteq> []"
proof -
  from attempts_Inr [OF assms(1) [unfolded scrapeWithPerplexity_def]]
  obtain i where "perplexityAttempt isValidUrl now cid (search i) = Inr ps" by blast
  then have "ps = filter (validateArticle isValidUrl)
                    (List.map_filter id
                       (map (\<lambda>item. enrichArticle now item cid ''perplexity'')
                          (case search i of Inl e \<Rightarrow> [] | Inr items \<Rightarrow> items)))"
    by (auto simp: perplexityAttempt_def Let_def split: sum.splits if_splits)
  with assms(2) enriched_valid show ?thesis by blast
qed

lemma newsApi_articles:
  assumes "scrapeWithNewsApi isValidUrl now search cid = Inr bs" and "a \<in> set bs"
  shows "a_apiUsed a = Some ''newsapi''"
proof -
  from assms(1) have "bs = filter (validateArticle isValidUrl)
                    (List.map_filter id
                       (map (\<lambda>item. enrichArticle now item cid ''newsapi'')
                          (case search of Inl e \<Rightarrow> [] | Inr items \<Rightarrow> items)))"
    by (auto simp: scrapeWithNewsApi_def split: sum.splits)
  with assms(2) enriched_valid show ?thesis by blast
qed

text \<open>Whether a primary-sourced article is in the accepted merge.\<close>

lemma merge_has_primary:
  assumes ps: "\<And>a. a \<in> set ps \<Longrightarrow> a_apiUsed a = Some ''perplexity'' \<and> url a \<noteq> []"
    and bs: "\<And>a. a \<in> set bs \<Longrightarrow> a_apiUsed a = Some ''newsapi''"
  shows "list_ex (\<lambda>a. a_apiUsed a = Some ''perplexity'')
           (take TARGET_ARTICLES_PER_CATEGORY (deduplicateArticles (ps @ bs)))
         \<longleftrightarrow> length ps > 0"
proof (cases ps)
  case Nil
  have "a_apiUsed a \<noteq> Some ''perplexity''"
    if "a \<in> set (take TARGET_ARTICLES_PER_CATEGORY (deduplicateArticles bs))" for a
  proof -
    from that have "a \<in> set bs"
      using dedup_subset [of bs] by (auto dest: in_set_takeD)
    from bs [OF this] show ?thesis by simp
  qed
  with Nil show ?thesis by (auto simp: list_ex_iff)
next
  case (Cons a ps')
  with ps [of a] have "a_apiUsed a = Some ''perplexity''" "url a \<noteq> []" by simp_all
  with Cons show ?thesis
    by (simp add: dedup_head TARGET_ARTICLES_PER_CATEGORY_def)
qed

text \<open>
  C10. Let the primary stage yield fewer than five valid articles (none, when it fails)
  and let the backup stage answer. If the URL-deduplicated merge of the primary and
  the backup articles holds at least five articles, the collection succeeds with the
  first fifteen of them, labelled \<open>combined\<close> exactly when an article of the primary
  provider is among them and \<open>newsapi\<close> otherwise. The label \<open>previous-day\<close> is recorded
  only when the primary stage yielded fewer than five and the merge of what the two
  stages delivered (nothing, for a stage that failed) stayed below five.
\<close>

theorem collect_source_label:
  fixes isValidUrl now cid primarySearch backupSearch previousDay
  defines "primary \<equiv> scrapeWithPerplexity isValidUrl now primarySearch cid"
    and "backup \<equiv> scrapeWithNewsApi isValidUrl now backupSearch cid"
  defines "merged \<equiv> deduplicateArticles
                      ((case primary of Inl e \<Rightarrow> [] | Inr ps \<Rightarrow> ps)
                       @ (case backup of Inl e \<Rightarrow> [] | Inr bs \<Rightarrow> bs))"
  defines "result \<equiv> fst (collect isValidUrl now cid primarySearch backupSearch previousDay)"
  shows "(length (case primary of Inl e \<Rightarrow> [] | Inr ps \<Rightarrow> ps) < 5
          \<and> \<not> isl backup \<and> length merged \<ge> 5
          \<longrightarrow> c_success result
              \<and> c_articles result = take 15 merged
              \<and> c_apiUsed result
                  = Some (if list_ex (\<lambda>a. a_apiUsed a = Some ''perplexity'') (c_articles result)
                          then ''combined'' else ''newsapi''))
       \<and> (c_apiUsed result = Some ''previous-day''
          \<longrightarrow> length (case primary of Inl e \<Rightarrow> [] | Inr ps \<Rightarrow> ps) < 5
              \<and> length merged < 5)"
proof -
  let ?ps = "case primary of Inl e \<Rightarrow> [] | Inr ps \<Rightarrow> ps"
  let ?bs = "case backup of Inl e \<Rightarrow> [] | Inr bs \<Rightarrow> bs"
  have ps: "a_apiUsed a = Some ''perplexity'' \<and> url a \<noteq> []" if "a \<in> set ?ps" for a
  proof (cases primary)
    case (Inl e)
    with that show ?thesis by simp
  next
    case (Inr pl)
    with that have "a \<in> set pl" by simp
    from perplexity_articles [OF Inr [unfolded primary_def] this] show ?thesis .
  qed
  have bs: "a_apiUsed a = Some ''newsapi''" if "a \<in> set ?bs" for a
  proof (cases backup)
    case (Inl e)
    with that show ?thesis by simp
  next
    case (Inr bl)
    with that have "a \<in> set bl" by simp
    from newsApi_articles [OF Inr [unfolded backup_def] this] show ?thesis .
  qed
  have label: "list_ex (\<lambda>a. a_apiUsed a = Some ''perplexity'') (take 15 merged) \<longleftrightarrow> length ?ps > 0"
    using merge_has_primary [of ?ps ?bs] ps bs
    unfolding merged_def TARGET_ARTICLES_PER_CATEGORY_def by blast
  have res: "result = fst (scrapeCategory cid primary backup previousDay)"
    unfolding result_def collect_def primary_def backup_def ..
  have accept: "c_success result \<and> c_articles result = take 15 merged
        \<and> c_apiUsed result = Some (if length ?ps > 0 then ''combined'' else ''newsapi'')"
    if "length ?ps < 5" "\<not> isl backup" "length merged \<ge> 5"
  proof -
    from that(2) obtain bl where b: "backup = Inr bl" by (cases backup) auto
    show ?thesis
    proof (cases primary)
      case (Inl e)
      obtain m where "e = Error m" by (cases e)
      with Inl b that(3) show ?thesis
        unfolding res merged_def
        by (simp add: Let_def scrapeCategory_def newsApiStage_def MIN_ARTICLES_PER_CATEGORY_def
                      TARGET_ARTICLES_PER_CATEGORY_def)
    next
      case (Inr pl)
      with b that(1,3) show ?thesis
        unfolding res merged_def
        by (simp add: Let_def scrapeCategory_def newsApiStage_def MIN_ARTICLES_PER_CATEGORY_def
                      TARGET_ARTICLES_PER_CATEGORY_def)
    qed
  qed
  have previous0: "length ?ps < 5 \<and> (isl backup \<or> length merged < 5)"
    if "c_apiUsed result = Some ''previous-day''"
  proof (cases primary)
    case (Inl e)
    obtain m where e: "e = Error m" by (cases e)
    show ?thesis
    proof (cases backup)
      case (Inl e')
      with \<open>primary = Inl e\<close> show ?thesis by simp
    next
      case (Inr bl)
      with \<open>primary = Inl e\<close> e that show ?thesis
        unfolding res merged_def
        by (auto simp: Let_def scrapeCategory_def newsApiStage_def previousDayStage_def
                       MIN_ARTICLES_PER_CATEGORY_def
                 split: if_splits sum.splits)
    qed
  next
    case (Inr pl)
    show ?thesis
    proof (cases backup)
      case (Inl e')
      obtain m where "e' = Error m" by (cases e')
      with Inl \<open>primary = Inr pl\<close> that show ?thesis
        unfolding res
        by (auto simp: Let_def scrapeCategory_def newsApiStage_def previousDayStage_def
                       MIN_ARTICLES_PER_CATEGORY_def
                 split: if_splits sum.splits)
    next
      case (Inr bl)
      with \<open>primary = Inr pl\<close> that show ?thesis
        unfolding res merged_def
        by (auto simp: Let_def scrapeCategory_def newsApiStage_def previousDayStage_def
                       MIN_ARTICLES_PER_CATEGORY_def
                 split: if_splits sum.splits)
    qed
  qed
  have previous: "length ?ps < 5 \<and> length merged < 5"
    if p: "c_apiUsed result = Some ''previous-day''"
  proof (cases backup)
    case (Inl e)
    have "length merged \<le> length ?ps"
      unfolding merged_def Inl using dedup_length [of ?ps] by simp
    with previous0 [OF p] show ?thesis by simp
  next
    case (Inr bl)
    with previous0 [OF p] show ?thesis by simp
  qed
  show ?thesis
  proof (intro conjI impI)
    assume h: "length ?ps < 5 \<and> \<not> isl backup \<and> length merged \<ge> 5"
    with accept have a: "c_success result" "c_articles result = take 15 merged"
      "c_apiUsed result = Some (if length ?ps > 0 then ''combined'' else ''newsapi'')"
      by simp_all
    show "c_success result" by (fact a(1))
    show "c_articles result = take 15 merged" by (fact a(2))
    show "c_apiUsed result
            = Some (if list_ex (\<lambda>a. a_apiUsed a = Some ''perplexity'') (c_articles result)
                    then ''combined'' else ''newsapi'')"
      unfolding a(2) label by (fact a(3))
  next
    assume "c_apiUsed result = Some ''previous-day''"
    from previous [OF this] show "length ?ps < 5" "length merged < 5"
      by simp_all
  qed
qed

text \<open>
  A primary provider that answers with two articles on its third attempt and a backup
  with four gives six merged articles labelled \<open>combined\<close>; a primary provider that
  fails three times and the same backup gives four, and the label \<open>previous-day\<close>.
\<close>

theorem collect_source_label_witness:
  "length (case scrapeWithPerplexity httpsOnly juneMorning slowPrimary ''business-ai'' of
             Inl e \<Rightarrow> [] | Inr ps \<Rightarrow> ps) < 5
   \<and> \<not> isl (scrapeWithNewsApi httpsOnly juneMorning backupFour ''business-ai'')
   \<and> length (deduplicateArticles
         ((case scrapeWithPerplexity httpsOnly juneMorning slowPrimary ''business-ai'' of
             Inl e \<Rightarrow> [] | Inr ps \<Rightarrow> ps)
          @ (case scrapeWithNewsApi httpsOnly juneMorning backupFour ''business-ai'' of
               Inl e \<Rightarrow> [] | Inr bs \<Rightarrow> bs))) \<ge> 5
   \<and> list_ex (\<lambda>a. a_apiUsed a = Some ''perplexity'')
        (c_articles (fst (collect httpsOnly juneMorning ''business-ai'' slowPrimary backupFour (Inr []))))
   \<and> c_apiUsed (fst (collect httpsOnly juneMorning ''business-ai'' slowPrimary backupFour (Inr [])))
       = Some ''combined''
   \<and> c_apiUsed (fst (collect httpsOnly juneMorning ''business-ai'' deadPrimary backupFour previousTwo))
       = Some ''previous-day''
   \<and> length (deduplicateArticles
         ((case scrapeWithPerplexity httpsOnly juneMorning deadPrimary ''business-ai'' of
             Inl e \<Rightarrow> [] | Inr ps \<Rightarrow> ps)
          @ (case scrapeWithNewsApi httpsOnly juneMorning backupFour ''business-ai'' of
               Inl e \<Rightarrow> [] | Inr bs \<Rightarrow> bs))) < 5"
proof -
  let ?P = "scrapeWithPerplexity httpsOnly juneMorning slowPrimary ''business-ai''"
  let ?D = "scrapeWithPerplexity httpsOnly juneMorning deadPrimary ''business-ai''"
  let ?B = "scrapeWithNewsApi httpsOnly juneMorning backupFour ''business-ai''"
  let ?r1 = "fst (collect httpsOnly juneMorning ''business-ai'' slowPrimary backupFour (Inr []))"
  let ?r2 = "fst (collect httpsOnly juneMorning ''business-ai'' deadPrimary backupFour previousTwo)"
  have h1: "length (case ?P of Inl e \<Rightarrow> [] | Inr ps \<Rightarrow> ps) < 5"
    by code_simp
  have h2: "\<not> isl ?B"
    by code_simp
  have h3: "length (deduplicateArticles
              ((case ?P of Inl e \<Rightarrow> [] | Inr ps \<Rightarrow> ps) @ (case ?B of Inl e \<Rightarrow> [] | Inr bs \<Rightarrow> bs)))
            \<ge> 5"
    by code_simp
  have ex: "list_ex (\<lambda>a. a_apiUsed a = Some ''perplexity'') (c_articles ?r1)"
    by code_simp
  have prev: "c_apiUsed ?r2 = Some ''previous-day''"
    by code_simp
  from collect_source_label [of httpsOnly juneMorning slowPrimary "''business-ai''" backupFour
         "Inr []",
         THEN conjunct1, THEN mp, OF conjI [OF h1 conjI [OF h2 h3]]]
  have "c_apiUsed ?r1
          = Some (if list_ex (\<lambda>a. a_apiUsed a = Some ''perplexity'') (c_articles ?r1)
                  then ''combined'' else ''newsapi'')"
    by (rule conjunct2 [THEN conjunct2])
  with ex have combined: "c_apiUsed ?r1 = Some ''combined''"
    by simp
  from collect_source_label [of httpsOnly juneMorning deadPrimary "''business-ai''" backupFour
         previousTwo,
         THEN conjunct2, THEN mp, OF prev]
  have below: "length (deduplicateArticles
              ((case ?D of Inl e \<Rightarrow> [] | Inr ps \<Rightarrow> ps) @ (case ?B of Inl e \<Rightarrow> [] | Inr bs \<Rightarrow> bs)))
            < 5"
    by (rule conjunct2)
  show ?thesis
    by (intro conjI) (fact h1, fact h2, fact h3, fact ex, fact combined, fact prev, fact below)
qed

end
